theory Spec2Isabelle
  imports Complex_Main "HOL-Library.Log_Nat"
begin

section \<open>Python floats\<close>

text \<open>
  The calculations of \<^verbatim>\<open>get_battery_data_forensic\<close> are carried out on Python floats,
  which are IEEE 754 binary64 numbers. A finite float is represented by the rational it
  denotes; the two zeros are identified, as Python's \<^verbatim>\<open>==\<close> identifies them.
\<close>

datatype pyfloat = Fin rat | PInf | NInf | NaN

definition pow2 :: "int \<Rightarrow> rat" where
  "pow2 e = (if 0 \<le> e then 2 ^ nat e else 1 / 2 ^ nat (- e))"

text \<open>Rounding to the nearest integer, a tie going to the even neighbour.\<close>

definition round_half_even :: "rat \<Rightarrow> int" where
  "round_half_even x =
     (let f = \<lfloor>x\<rfloor>; d = x - of_int f
      in if d < 1 / 2 then f else if 1 / 2 < d then f + 1
         else if even f then f else f + 1)"

text \<open>The exponent \<open>e\<close> with \<open>2 ^ e \<le> x < 2 ^ (e + 1)\<close>, for positive \<open>x\<close>.\<close>

definition ilog2 :: "rat \<Rightarrow> int" where
  "ilog2 x =
     (case quotient_of x of (p, q) \<Rightarrow>
        let d = bitlen p - bitlen q in if pow2 d \<le> x then d else d - 1)"

text \<open>
  Rounding a rational to binary64 with an unbounded exponent range upwards: 53 significant
  bits, subnormal numbers below \<open>2 ^ - 1022\<close>, round to nearest, ties to even.
\<close>

definition ulp_exp :: "rat \<Rightarrow> int" where
  "ulp_exp x = max (ilog2 \<bar>x\<bar> - 52) (- 1074)"

definition fl :: "rat \<Rightarrow> rat" where
  "fl x =
     (if x = 0 then 0
      else let u = ulp_exp x in of_int (round_half_even (x / pow2 u)) * pow2 u)"

definition overflows :: "rat \<Rightarrow> bool" where
  "overflows y \<longleftrightarrow> pow2 1024 \<le> \<bar>y\<bar>"

text \<open>The result of a float operation whose exact value is \<open>x\<close>: overflow gives an infinity.\<close>

definition of_exact :: "rat \<Rightarrow> pyfloat" where
  "of_exact x =
     (let y = fl x
      in if overflows y then (if 0 < y then PInf else NInf) else Fin y)"

datatype error =
    IoregFailed | TimeoutExpired | InvalidFileException | NoDeviceFound
  | IndexError | AttributeError | TypeError | ZeroDivisionError | OverflowError

definition and_then :: "error + 'a \<Rightarrow> ('a \<Rightarrow> error + 'b) \<Rightarrow> error + 'b" where
  "and_then m f = (case m of Inl e \<Rightarrow> Inl e | Inr x \<Rightarrow> f x)"

text \<open>\<^verbatim>\<open>float(n)\<close>, the conversion applied to the integer operand of \<^verbatim>\<open>n / 1000.0\<close>.\<close>

definition float_of_int :: "int \<Rightarrow> error + pyfloat" where
  "float_of_int n =
     (let y = fl (of_int n) in if overflows y then Inl OverflowError else Inr (Fin y))"

text \<open>\<^verbatim>\<open>a / b\<close> on two integers: the correctly rounded quotient.\<close>

definition int_truediv :: "int \<Rightarrow> int \<Rightarrow> error + pyfloat" where
  "int_truediv a b =
     (if b = 0 then Inl ZeroDivisionError
      else let y = fl (of_int a / of_int b)
           in if overflows y then Inl OverflowError else Inr (Fin y))"

fun float_neg :: "pyfloat \<Rightarrow> pyfloat" where
  "float_neg (Fin a) = Fin (- a)"
| "float_neg PInf = NInf"
| "float_neg NInf = PInf"
| "float_neg NaN = NaN"

fun float_mul :: "pyfloat \<Rightarrow> pyfloat \<Rightarrow> pyfloat" where
  "float_mul (Fin a) (Fin b) = of_exact (a * b)"
| "float_mul NaN y = NaN"
| "float_mul x NaN = NaN"
| "float_mul (Fin a) y = (if a = 0 then NaN else if 0 < a then y else float_neg y)"
| "float_mul x (Fin b) = (if b = 0 then NaN else if 0 < b then x else float_neg x)"
| "float_mul PInf y = y"
| "float_mul NInf y = float_neg y"

fun float_add :: "pyfloat \<Rightarrow> pyfloat \<Rightarrow> pyfloat" where
  "float_add (Fin a) (Fin b) = of_exact (a + b)"
| "float_add NaN y = NaN"
| "float_add x NaN = NaN"
| "float_add (Fin a) y = y"
| "float_add x (Fin b) = x"
| "float_add PInf PInf = PInf"
| "float_add NInf NInf = NInf"
| "float_add PInf NInf = NaN"
| "float_add NInf PInf = NaN"

definition float_sub :: "pyfloat \<Rightarrow> pyfloat \<Rightarrow> pyfloat" where
  "float_sub x y = float_add x (float_neg y)"

text \<open>\<^verbatim>\<open>x / y\<close> on two floats; Python raises on a zero divisor.\<close>

fun float_truediv :: "pyfloat \<Rightarrow> pyfloat \<Rightarrow> error + pyfloat" where
  "float_truediv x (Fin b) =
     (if b = 0 then Inl ZeroDivisionError
      else case x of Fin a \<Rightarrow> Inr (of_exact (a / b))
         | NaN \<Rightarrow> Inr NaN
         | _ \<Rightarrow> Inr (if 0 < b then x else float_neg x))"
| "float_truediv x NaN = Inr NaN"
| "float_truediv (Fin a) y = Inr (Fin 0)"
| "float_truediv x y = Inr NaN"

text \<open>The comparisons \<^verbatim>\<open>x <= y\<close> and \<^verbatim>\<open>x < y\<close> on floats; NaN compares false.\<close>

fun float_le :: "pyfloat \<Rightarrow> pyfloat \<Rightarrow> bool" where
  "float_le (Fin a) (Fin b) = (a \<le> b)"
| "float_le NaN y = False"
| "float_le x NaN = False"
| "float_le NInf y = True"
| "float_le x PInf = True"
| "float_le PInf y = False"
| "float_le x NInf = False"

fun float_lt :: "pyfloat \<Rightarrow> pyfloat \<Rightarrow> bool" where
  "float_lt (Fin a) (Fin b) = (a < b)"
| "float_lt NaN y = False"
| "float_lt x NaN = False"
| "float_lt PInf y = False"
| "float_lt x NInf = False"
| "float_lt NInf y = True"
| "float_lt x PInf = True"

text \<open>
  \<^verbatim>\<open>round(x, ndigits)\<close> for a float: the exact value of \<open>x\<close> is rounded to \<open>ndigits\<close>
  decimal places, ties to even, and the decimal is converted back to the nearest float.
  Infinities and NaN round to themselves.
\<close>

fun py_round :: "pyfloat \<Rightarrow> nat \<Rightarrow> pyfloat" where
  "py_round (Fin x) ndigits =
     Fin (fl (of_int (round_half_even (x * 10 ^ ndigits)) / 10 ^ ndigits))"
| "py_round x ndigits = x"

text \<open>
  Rounding to \<open>n\<close> decimal places in words: the entry \<open>e\<close> is the float nearest to
  \<open>k / 10 ^ n\<close>, where \<open>k\<close> is the integer nearest to \<open>10 ^ n\<close> times the unrounded
  value \<open>u\<close>, the even one of the two when both are as near; an infinity or NaN is kept.
\<close>

definition nearest_decimal :: "nat \<Rightarrow> pyfloat \<Rightarrow> pyfloat \<Rightarrow> bool" where
  "nearest_decimal n u e \<longleftrightarrow>
     (case u of
        Fin x \<Rightarrow>
          (\<exists>k::int. \<bar>x * 10 ^ n - of_int k\<bar> \<le> 1 / 2
             \<and> (\<bar>x * 10 ^ n - of_int k\<bar> = 1 / 2 \<longrightarrow> even k)
             \<and> e = Fin (fl (of_int k / 10 ^ n)))
      | _ \<Rightarrow> e = u)"

section \<open>The parsed registry document\<close>

text \<open>The values \<^verbatim>\<open>plistlib.loads\<close> produces.\<close>

datatype plist =
    PInt int
  | PReal pyfloat
  | PBool bool
  | PStr string
  | PData string
  | PDate string
  | PList "plist list"
  | PDict "(string \<times> plist) list"

fun truthy :: "plist \<Rightarrow> bool" where
  "truthy (PInt n) = (n \<noteq> 0)"
| "truthy (PReal x) = (x \<noteq> Fin 0)"
| "truthy (PBool b) = b"
| "truthy (PStr s) = (s \<noteq> [])"
| "truthy (PData s) = (s \<noteq> [])"
| "truthy (PDate d) = True"
| "truthy (PList xs) = (xs \<noteq> [])"
| "truthy (PDict kvs) = (kvs \<noteq> [])"

text \<open>
  \<^verbatim>\<open>x / y\<close> for a value \<open>x\<close> of the document and a float \<open>y\<close>: an integer, and a
  boolean as the integer it is, is converted to a float first, a real is a float, and any
  other value raises. Line 229 divides the temperature by 100.0 unless it is empty.
\<close>

fun value_truediv :: "plist \<Rightarrow> pyfloat \<Rightarrow> error + pyfloat" where
  "value_truediv (PInt n) y = and_then (float_of_int n) (\<lambda>x. float_truediv x y)"
| "value_truediv (PBool b) y =
     and_then (float_of_int (if b then 1 else 0)) (\<lambda>x. float_truediv x y)"
| "value_truediv (PReal x) y = float_truediv x y"
| "value_truediv other y = Inl TypeError"

definition temperature_celsius_of_value :: "plist \<Rightarrow> error + pyfloat" where
  "temperature_celsius_of_value temperature_raw =
     (if truthy temperature_raw then value_truediv temperature_raw (Fin 100) else Inr (Fin 0))"

text \<open>
  \<^verbatim>\<open>d.get(k, default)\<close>. A dictionary is the list of its items; a Python dictionary
  has one value for a key, and the lookup takes the first one the list has.
\<close>

definition dict_get :: "(string \<times> plist) list \<Rightarrow> string \<Rightarrow> plist \<Rightarrow> plist" where
  "dict_get kvs k dflt = (case map_of kvs k of None \<Rightarrow> dflt | Some v \<Rightarrow> v)"




text \<open>
  Lines 245 to 251, the loop over \<^verbatim>\<open>adapter_details\<close>: the first dictionary decides,
  and the loop is entered for a non-empty list only.
\<close>

fun first_adapter_watts :: "plist list \<Rightarrow> plist" where
  "first_adapter_watts [] = PInt 0"
| "first_adapter_watts (PDict adapter # rest) = dict_get adapter ''Watts'' (PInt 0)"
| "first_adapter_watts (other # rest) = first_adapter_watts rest"

fun is_list :: "plist \<Rightarrow> bool" where
  "is_list (PList xs) = True"
| "is_list other = False"

fun is_dict :: "plist \<Rightarrow> bool" where
  "is_dict (PDict kvs) = True"
| "is_dict other = False"

definition adapter_watts_of :: "plist \<Rightarrow> plist" where
  "adapter_watts_of adapter_details =
     (if truthy adapter_details \<and> is_list adapter_details
      then (case adapter_details of PList xs \<Rightarrow> first_adapter_watts xs | _ \<Rightarrow> PInt 0)
      else PInt 0)"

text \<open>
  The adapter wattage in the words of the specification: the wattage of the first entry
  of the list that is a dictionary, and 0 when the value is no list, the list has no
  dictionary, or that dictionary has no wattage.
\<close>

definition spec_adapter_watts :: "plist \<Rightarrow> plist" where
  "spec_adapter_watts adapter_details =
     (case adapter_details of
        PList xs \<Rightarrow>
          (case find is_dict xs of
             Some (PDict adapter) \<Rightarrow>
               (case map_of adapter ''Watts'' of None \<Rightarrow> PInt 0 | Some w \<Rightarrow> w)
           | _ \<Rightarrow> PInt 0)
      | _ \<Rightarrow> PInt 0)"

text \<open>
  Lines 207 to 251: the values read from the battery dictionary, each under the key it is
  read from, the temperature in Celsius that line 229 computes between the reads, and the
  adapter wattage under \<open>Watts\<close>. A value without the method \<^verbatim>\<open>get\<close> raises, and so
  does line 229 on a temperature that cannot be divided; the function catches both and
  returns \<^verbatim>\<open>None\<close>.
\<close>

record raw_keys =
  Serial :: plist
  DeviceName :: plist
  Manufacturer :: plist
  AppleRawMaxCapacity :: plist
  DesignCapacity :: plist
  NominalChargeCapacity :: plist
  CurrentCapacity :: plist
  AppleRawCurrentCapacity :: plist
  Voltage :: plist
  Amperage :: plist
  Temperature :: plist
  TemperatureCelsius :: pyfloat
  CycleCount :: plist
  TimeRemaining :: plist
  AvgTimeToEmpty :: plist
  InstantTimeToEmpty :: plist
  ExternalConnected :: plist
  IsCharging :: plist
  FullyCharged :: plist
  AppleRawAdapterDetails :: plist
  Watts :: plist

definition extract_raw_keys :: "plist \<Rightarrow> error + raw_keys" where
  "extract_raw_keys battery =
     (case battery of
        PDict kvs \<Rightarrow>
          and_then (temperature_celsius_of_value (dict_get kvs ''Temperature'' (PInt 0)))
            (\<lambda>temperature_celsius.
          Inr \<lparr> Serial = dict_get kvs ''Serial'' (PStr ''Unknown''),
                DeviceName = dict_get kvs ''DeviceName'' (PStr ''Unknown''),
                Manufacturer = dict_get kvs ''Manufacturer'' (PStr ''Apple Inc.''),
                AppleRawMaxCapacity = dict_get kvs ''AppleRawMaxCapacity'' (PInt 0),
                DesignCapacity = dict_get kvs ''DesignCapacity'' (PInt 0),
                NominalChargeCapacity = dict_get kvs ''NominalChargeCapacity'' (PInt 0),
                CurrentCapacity = dict_get kvs ''CurrentCapacity'' (PInt 0),
                AppleRawCurrentCapacity = dict_get kvs ''AppleRawCurrentCapacity'' (PInt 0),
                Voltage = dict_get kvs ''Voltage'' (PInt 0),
                Amperage = dict_get kvs ''Amperage'' (PInt 0),
                Temperature = dict_get kvs ''Temperature'' (PInt 0),
                TemperatureCelsius = temperature_celsius,
                CycleCount = dict_get kvs ''CycleCount'' (PInt 0),
                TimeRemaining = dict_get kvs ''TimeRemaining'' (PInt 0),
                AvgTimeToEmpty = dict_get kvs ''AvgTimeToEmpty'' (PInt 0),
                InstantTimeToEmpty = dict_get kvs ''InstantTimeToEmpty'' (PInt 0),
                ExternalConnected = dict_get kvs ''ExternalConnected'' (PBool False),
                IsCharging = dict_get kvs ''IsCharging'' (PBool False),
                FullyCharged = dict_get kvs ''FullyCharged'' (PBool False),
                AppleRawAdapterDetails = dict_get kvs ''AppleRawAdapterDetails'' (PList []),
                Watts = adapter_watts_of (dict_get kvs ''AppleRawAdapterDetails'' (PList [])) \<rparr>)
      | _ \<Rightarrow> Inl AttributeError)"


section \<open>The typed battery record\<close>

text \<open>
  The calculations of lines 253 to 322 are modelled on the records in which every key
  holds a value of the type the registry gives it: integers for the counters, booleans
  for the three flags, strings for the identity fields. The fields carry the names of the
  local variables.
\<close>

record battery_record =
  serial :: string
  device_name :: string
  manufacturer :: string
  apple_raw_max_capacity :: int
  design_capacity :: int
  nominal_charge_capacity :: int
  current_capacity_pct :: int
  apple_raw_current_capacity :: int
  voltage_mv :: int
  amperage_ma :: int
  temperature_raw :: int
  cycle_count :: int
  time_remaining :: int
  avg_time_to_empty :: int
  instant_time_to_empty :: int
  external_connected :: bool
  is_charging :: bool
  fully_charged :: bool
  adapter_watts :: int

fun as_int :: "plist \<Rightarrow> int option" where
  "as_int (PInt n) = Some n"
| "as_int other = None"

fun as_bool :: "plist \<Rightarrow> bool option" where
  "as_bool (PBool b) = Some b"
| "as_bool other = None"

fun as_str :: "plist \<Rightarrow> string option" where
  "as_str (PStr s) = Some s"
| "as_str other = None"

definition well_typed :: "raw_keys \<Rightarrow> bool" where
  "well_typed raw \<longleftrightarrow>
     as_str (Serial raw) \<noteq> None \<and> as_str (DeviceName raw) \<noteq> None
     \<and> as_str (Manufacturer raw) \<noteq> None
     \<and> as_int (AppleRawMaxCapacity raw) \<noteq> None \<and> as_int (DesignCapacity raw) \<noteq> None
     \<and> as_int (NominalChargeCapacity raw) \<noteq> None \<and> as_int (CurrentCapacity raw) \<noteq> None
     \<and> as_int (AppleRawCurrentCapacity raw) \<noteq> None
     \<and> as_int (Voltage raw) \<noteq> None \<and> as_int (Amperage raw) \<noteq> None
     \<and> as_int (Temperature raw) \<noteq> None \<and> as_int (CycleCount raw) \<noteq> None
     \<and> as_int (TimeRemaining raw) \<noteq> None \<and> as_int (AvgTimeToEmpty raw) \<noteq> None
     \<and> as_int (InstantTimeToEmpty raw) \<noteq> None
     \<and> as_bool (ExternalConnected raw) \<noteq> None \<and> as_bool (IsCharging raw) \<noteq> None
     \<and> as_bool (FullyCharged raw) \<noteq> None
     \<and> as_int (Watts raw) \<noteq> None"

definition battery_record_of :: "raw_keys \<Rightarrow> battery_record" where
  "battery_record_of raw =
     \<lparr> serial = the (as_str (Serial raw)),
       device_name = the (as_str (DeviceName raw)),
       manufacturer = the (as_str (Manufacturer raw)),
       apple_raw_max_capacity = the (as_int (AppleRawMaxCapacity raw)),
       design_capacity = the (as_int (DesignCapacity raw)),
       nominal_charge_capacity = the (as_int (NominalChargeCapacity raw)),
       current_capacity_pct = the (as_int (CurrentCapacity raw)),
       apple_raw_current_capacity = the (as_int (AppleRawCurrentCapacity raw)),
       voltage_mv = the (as_int (Voltage raw)),
       amperage_ma = the (as_int (Amperage raw)),
       temperature_raw = the (as_int (Temperature raw)),
       cycle_count = the (as_int (CycleCount raw)),
       time_remaining = the (as_int (TimeRemaining raw)),
       avg_time_to_empty = the (as_int (AvgTimeToEmpty raw)),
       instant_time_to_empty = the (as_int (InstantTimeToEmpty raw)),
       external_connected = the (as_bool (ExternalConnected raw)),
       is_charging = the (as_bool (IsCharging raw)),
       fully_charged = the (as_bool (FullyCharged raw)),
       adapter_watts = the (as_int (Watts raw)) \<rparr>"

section \<open>The calculations\<close>

text \<open>
  Lines 229 and 253 to 272, one function for each local variable. The conditions
  \<^verbatim>\<open>if voltage_mv\<close> and \<^verbatim>\<open>if temperature_raw\<close> are true of the integers other than zero,
  and the integer 0 of the other branch is the float 0.0 of the model.
\<close>

definition temperature_celsius_of :: "battery_record \<Rightarrow> error + pyfloat" where
  "temperature_celsius_of r =
     (if temperature_raw r \<noteq> 0
      then and_then (float_of_int (temperature_raw r)) (\<lambda>t. float_truediv t (Fin 100))
      else Inr (Fin 0))"

definition voltage_v_of :: "battery_record \<Rightarrow> error + pyfloat" where
  "voltage_v_of r =
     (if voltage_mv r \<noteq> 0
      then and_then (float_of_int (voltage_mv r)) (\<lambda>v. float_truediv v (Fin 1000))
      else Inr (Fin 0))"

definition power_watts_of :: "battery_record \<Rightarrow> error + pyfloat" where
  "power_watts_of r =
     (if voltage_mv r \<noteq> 0 \<and> amperage_ma r \<noteq> 0
      then int_truediv (voltage_mv r * \<bar>amperage_ma r\<bar>) 1000000
      else Inr (Fin 0))"

definition wear_level_of :: "battery_record \<Rightarrow> error + pyfloat" where
  "wear_level_of r =
     (if 0 < design_capacity r
      then and_then (int_truediv (apple_raw_max_capacity r) (design_capacity r))
             (\<lambda>q. Inr (float_sub (Fin 100) (float_mul q (Fin 100))))
      else Inr (Fin 0))"

definition real_health_pct_of :: "battery_record \<Rightarrow> error + pyfloat" where
  "real_health_pct_of r =
     (if 0 < design_capacity r
      then and_then (int_truediv (apple_raw_max_capacity r) (design_capacity r))
             (\<lambda>q. Inr (float_mul q (Fin 100)))
      else Inr (Fin 0))"

definition real_percentage_of :: "battery_record \<Rightarrow> error + pyfloat" where
  "real_percentage_of r =
     (if 0 < apple_raw_max_capacity r
      then and_then (int_truediv (apple_raw_current_capacity r) (apple_raw_max_capacity r))
             (\<lambda>q. Inr (float_mul q (Fin 100)))
      else Inr (Fin 0))"

definition charging_status_of :: "battery_record \<Rightarrow> string" where
  "charging_status_of r =
     (if fully_charged r then ''Fully Charged''
      else if is_charging r then ''Charging''
      else if external_connected r then ''Not Charging''
      else ''Discharging'')"

text \<open>
  The dictionary the function returns: the record it was computed from, which the
  dictionary repeats entry by entry, and the computed entries under their keys.
\<close>

record battery_data =
  source :: battery_record
  voltage_v :: pyfloat
  power_watts :: pyfloat
  temperature_celsius :: pyfloat
  wear_level_pct :: pyfloat
  real_health_pct :: pyfloat
  real_percentage :: pyfloat
  charging_status :: string
  timestamp :: string

definition derive :: "battery_record \<Rightarrow> string \<Rightarrow> error + battery_data" where
  "derive r now =
     and_then (temperature_celsius_of r) (\<lambda>temperature_celsius.
     and_then (voltage_v_of r) (\<lambda>voltage_v.
     and_then (power_watts_of r) (\<lambda>power_watts.
     and_then (wear_level_of r) (\<lambda>wear_level.
     and_then (real_health_pct_of r) (\<lambda>real_health_pct.
     and_then (real_percentage_of r) (\<lambda>real_percentage.
       Inr \<lparr> source = r,
             voltage_v = py_round voltage_v 2,
             power_watts = py_round power_watts 2,
             temperature_celsius = py_round temperature_celsius 1,
             wear_level_pct = py_round wear_level 2,
             real_health_pct = py_round real_health_pct 2,
             real_percentage = py_round real_percentage 2,
             charging_status = charging_status_of r,
             timestamp = now \<rparr>))))))"

text \<open>
  \<open>derive\<close> is the whole computation on a typed record, the temperature of line 229
  included. In the function the temperature is computed while the dictionary is read, and
  lines 253 to 322 follow with that value:
\<close>

definition calculations :: "pyfloat \<Rightarrow> battery_record \<Rightarrow> string \<Rightarrow> error + battery_data" where
  "calculations celsius r now =
     and_then (voltage_v_of r) (\<lambda>voltage_v.
     and_then (power_watts_of r) (\<lambda>power_watts.
     and_then (wear_level_of r) (\<lambda>wear_level.
     and_then (real_health_pct_of r) (\<lambda>real_health_pct.
     and_then (real_percentage_of r) (\<lambda>real_percentage.
       Inr \<lparr> source = r,
             voltage_v = py_round voltage_v 2,
             power_watts = py_round power_watts 2,
             temperature_celsius = py_round celsius 1,
             wear_level_pct = py_round wear_level 2,
             real_health_pct = py_round real_health_pct 2,
             real_percentage = py_round real_percentage 2,
             charging_status = charging_status_of r,
             timestamp = now \<rparr>)))))"

text \<open>
  The whole function. \<open>Failure\<close> is the return of \<^verbatim>\<open>None\<close>, with the condition that
  caused it; a document that is read but has a value of another type than the typed
  record has lies outside the model and is reported as such.
\<close>

datatype outcome = Report battery_data | Failure error | Ill_Typed

definition calculate :: "raw_keys \<Rightarrow> string \<Rightarrow> outcome" where
  "calculate raw now =
     (if well_typed raw
      then (case calculations (TemperatureCelsius raw) (battery_record_of raw) now of
              Inl e \<Rightarrow> Failure e | Inr d \<Rightarrow> Report d)
      else Ill_Typed)"


text \<open>
  The scenario of the specification: design capacity 3000, raw maximum capacity 2700,
  raw current capacity 2000, 12000 mV, -1500 mA, external power connected, neither
  charging nor fully charged, and a raw temperature of 3650; every other field at the
  value an absent key gives it.
\<close>

definition scenario :: battery_record where
  "scenario =
     \<lparr> serial = ''Unknown'', device_name = ''Unknown'', manufacturer = ''Apple Inc.'',
       apple_raw_max_capacity = 2700, design_capacity = 3000, nominal_charge_capacity = 0,
       current_capacity_pct = 0, apple_raw_current_capacity = 2000,
       voltage_mv = 12000, amperage_ma = - 1500, temperature_raw = 3650, cycle_count = 0,
       time_remaining = 0, avg_time_to_empty = 0, instant_time_to_empty = 0,
       external_connected = True, is_charging = False, fully_charged = False,
       adapter_watts = 0 \<rparr>"

section \<open>Properties of the rounding\<close>

lemma pow2_power_int: "pow2 e = power_int 2 e"
  by (simp add: pow2_def power_int_def field_simps)

lemma pow2_pos: "0 < pow2 e"
  by (simp add: pow2_power_int)

lemma pow2_add: "pow2 (a + b) = pow2 a * pow2 b"
  by (simp add: pow2_power_int power_int_add)

lemma pow2_mono: "a \<le> b \<Longrightarrow> pow2 a \<le> pow2 b"
  by (simp add: pow2_power_int power_int_increasing)

lemma pow2_less_imp: "pow2 a < pow2 b \<Longrightarrow> a < b"
  using pow2_mono [of b a] by (cases "a < b") auto

lemma pow2_nat: "0 \<le> e \<Longrightarrow> pow2 e = 2 ^ nat e"
  by (simp add: pow2_def)

lemma rhe_of_int: "round_half_even (of_int k) = k"
  by (simp add: round_half_even_def)

lemma rhe_lower: "x - 1 / 2 \<le> of_int (round_half_even x)"
  unfolding round_half_even_def Let_def by (auto; linarith)

lemma rhe_upper: "of_int (round_half_even x) \<le> x + 1 / 2"
  unfolding round_half_even_def Let_def by (auto; linarith)

lemma rhe_mono:
  assumes "x \<le> y"
  shows "round_half_even x \<le> round_half_even y"
proof -
  have fl: "\<lfloor>x\<rfloor> \<le> \<lfloor>y\<rfloor>" using assms by (rule floor_mono)
  show ?thesis
  proof (cases "\<lfloor>x\<rfloor> = \<lfloor>y\<rfloor>")
    case True
    then show ?thesis using assms
      unfolding round_half_even_def Let_def by auto
  next
    case False
    with fl have "\<lfloor>x\<rfloor> + 1 \<le> \<lfloor>y\<rfloor>" by simp
    moreover have "round_half_even x \<le> \<lfloor>x\<rfloor> + 1"
      unfolding round_half_even_def Let_def by auto
    moreover have "\<lfloor>y\<rfloor> \<le> round_half_even y"
      unfolding round_half_even_def Let_def by auto
    ultimately show ?thesis by linarith
  qed
qed

lemma rhe_neg: "round_half_even (- x) = - round_half_even x"
proof (cases "x \<in> \<int>")
  case True
  then obtain k where "x = of_int k" by (auto elim: Ints_cases)
  then show ?thesis using rhe_of_int [of "- k"] rhe_of_int [of k] by simp
next
  case False
  have ne: "x \<noteq> of_int \<lfloor>x\<rfloor>"
  proof
    assume "x = of_int \<lfloor>x\<rfloor>"
    then have "x \<in> \<int>" using Ints_of_int [of "\<lfloor>x\<rfloor>", where 'a = rat] by simp
    with False show False by simp
  qed
  have lt: "of_int \<lfloor>x\<rfloor> < x" using ne of_int_floor_le [of x] by linarith
  have f: "\<lfloor>- x\<rfloor> = - \<lfloor>x\<rfloor> - 1"
    using ne by (simp add: floor_minus ceiling_altdef)
  show ?thesis
    unfolding round_half_even_def Let_def f using lt
    by (auto simp add: algebra_simps)
qed

lemma ilog2_bounds:
  assumes "0 < x"
  shows "pow2 (ilog2 x) \<le> x \<and> x < pow2 (ilog2 x + 1)"
proof -
  obtain p q where pq: "quotient_of x = (p, q)" by (cases "quotient_of x")
  then have q: "0 < q" by (rule quotient_of_denom_pos)
  have x: "x = of_int p / of_int q" using pq by (rule quotient_of_div)
  with assms q have p: "0 < p" by (simp add: zero_less_divide_iff)
  define bp where "bp = bitlen p"
  define bq where "bq = bitlen q"
  have bp: "1 \<le> bp" "(2::int) ^ nat (bp - 1) \<le> p" "p < 2 ^ nat bp"
    using bitlen_bounds [OF p] p bitlen_eq_zero_iff [of p] bitlen_nonneg [of p]
    by (auto simp add: bp_def)
  have bq: "1 \<le> bq" "(2::int) ^ nat (bq - 1) \<le> q" "q < 2 ^ nat bq"
    using bitlen_bounds [OF q] q bitlen_eq_zero_iff [of q] bitlen_nonneg [of q]
    by (auto simp add: bq_def)
  have P1: "pow2 (bp - 1) \<le> of_int p" using bp(1,2) 
    by (simp add: pow2_nat)
  have P2: "of_int p < pow2 bp" using bp(1,3)
    by (simp add: pow2_nat)
  have Q1: "pow2 (bq - 1) \<le> of_int q" using bq(1,2) 
    by (simp add: pow2_nat)
  have Q2: "of_int q < pow2 bq" using bq(1,3)
    by (simp add: pow2_nat)
  have qpos: "(0::rat) < of_int q" using q by simp
  have lo: "pow2 (bp - bq - 1) < x"
  proof -
    have "pow2 (bp - bq - 1) * of_int q < pow2 (bp - bq - 1) * pow2 bq"
      using Q2 pow2_pos by simp
    also have "\<dots> = pow2 (bp - 1)" by (simp flip: pow2_add)
    also have "\<dots> \<le> of_int p" by (rule P1)
    finally show ?thesis using qpos by (simp add: x pos_less_divide_eq)
  qed
  have hi: "x < pow2 (bp - bq + 1)"
  proof -
    have "of_int p < pow2 bp" by (rule P2)
    also have "\<dots> = pow2 (bp - bq + 1) * pow2 (bq - 1)" by (simp flip: pow2_add)
    also have "\<dots> \<le> pow2 (bp - bq + 1) * of_int q"
      using Q1 pow2_pos [of "bp - bq + 1"] by simp
    finally show ?thesis using qpos by (simp add: x pos_divide_less_eq)
  qed
  have lo': "pow2 (bitlen p - bitlen q - 1) \<le> x" using lo by (simp add: bp_def bq_def)
  have hi': "x < pow2 (bitlen p - bitlen q + 1)" using hi by (simp add: bp_def bq_def)
  show ?thesis
    using lo' hi' unfolding ilog2_def pq
    by (auto simp add: Let_def)
qed

lemma ilog2_mono:
  assumes "0 < x" "x \<le> y"
  shows "ilog2 x \<le> ilog2 y"
proof -
  have "pow2 (ilog2 x) \<le> x" using ilog2_bounds [OF assms(1)] by simp
  also have "x \<le> y" by fact
  also have "y < pow2 (ilog2 y + 1)" using ilog2_bounds [of y] assms by simp
  finally show ?thesis using pow2_less_imp by fastforce
qed


lemma fl_ulp: "fl x = (if x = 0 then 0 else of_int (round_half_even (x / pow2 (ulp_exp x))) * pow2 (ulp_exp x))"
  by (simp add: fl_def Let_def)

lemma fl_neg: "fl (- x) = - fl x"
  by (simp add: fl_ulp ulp_exp_def rhe_neg)

lemma rhe_nonneg: "0 \<le> x \<Longrightarrow> 0 \<le> round_half_even x"
  using rhe_mono [of 0 x] rhe_of_int [of 0] by simp

lemma fl_nonneg: "0 \<le> x \<Longrightarrow> 0 \<le> fl x"
  using pow2_pos [of "ulp_exp x"] rhe_nonneg [of "x / pow2 (ulp_exp x)"]
  by (simp add: fl_ulp)

lemma ulp_exp_mono: "0 < x \<Longrightarrow> x \<le> y \<Longrightarrow> ulp_exp x \<le> ulp_exp y"
  using ilog2_mono [of x y] by (simp add: ulp_exp_def)

lemma fl_upper_pos:
  assumes "0 < x"
  shows "fl x \<le> pow2 (ulp_exp x + 53)"
proof -
  let ?u = "ulp_exp x"
  have "x < pow2 (ilog2 x + 1)" using ilog2_bounds [OF assms] by simp
  also have "\<dots> \<le> pow2 (?u + 53)"
    using assms by (intro pow2_mono) (simp add: ulp_exp_def)
  also have "\<dots> = pow2 53 * pow2 ?u" by (simp add: pow2_add)
  finally have "x / pow2 ?u \<le> pow2 53"
    using pow2_pos [of ?u] by (simp add: pos_divide_le_eq)
  then have "round_half_even (x / pow2 ?u) \<le> round_half_even (pow2 53)"
    by (rule rhe_mono)
  also have "pow2 53 = of_int (2 ^ 53)" by (simp add: pow2_def)
  finally have "round_half_even (x / pow2 ?u) \<le> 2 ^ 53"
    by (simp only: rhe_of_int)
  then have "(of_int (round_half_even (x / pow2 ?u)) :: rat) \<le> of_int (2 ^ 53)"
    by (simp only: of_int_le_iff)
  then have "of_int (round_half_even (x / pow2 ?u)) * pow2 ?u \<le> pow2 53 * pow2 ?u"
    using pow2_pos [of ?u] by (simp add: pow2_def)
  then show ?thesis using assms by (simp add: fl_ulp pow2_add mult.commute)
qed

lemma fl_lower_normal:
  assumes "0 < x" and "ulp_exp x = ilog2 x - 52"
  shows "pow2 (ilog2 x) \<le> fl x"
proof -
  let ?u = "ulp_exp x"
  have "pow2 (ilog2 x) = pow2 52 * pow2 ?u" by (simp add: assms(2) flip: pow2_add)
  moreover have "pow2 (ilog2 x) \<le> x" using ilog2_bounds [OF assms(1)] by simp
  ultimately have "pow2 52 \<le> x / pow2 ?u"
    using pow2_pos [of ?u] by (simp add: pos_le_divide_eq)
  then have "round_half_even (pow2 52) \<le> round_half_even (x / pow2 ?u)"
    by (rule rhe_mono)
  moreover have "pow2 52 = of_int (2 ^ 52)" by (simp add: pow2_def)
  ultimately have "2 ^ 52 \<le> round_half_even (x / pow2 ?u)"
    by (simp only: rhe_of_int)
  then have "(of_int (2 ^ 52) :: rat) \<le> of_int (round_half_even (x / pow2 ?u))"
    by (simp only: of_int_le_iff)
  then have "pow2 52 * pow2 ?u \<le> of_int (round_half_even (x / pow2 ?u)) * pow2 ?u"
    using pow2_pos [of ?u] by (simp add: pow2_def)
  then show ?thesis
    using assms(1) \<open>pow2 (ilog2 x) = pow2 52 * pow2 ?u\<close> by (simp add: fl_ulp)
qed

lemma fl_mono_pos:
  assumes "0 < x" "x \<le> y"
  shows "fl x \<le> fl y"
proof -
  have y: "0 < y" using assms by simp
  have le: "ulp_exp x \<le> ulp_exp y" using assms by (rule ulp_exp_mono)
  show ?thesis
  proof (cases "ulp_exp x = ulp_exp y")
    case True
    have "x / pow2 (ulp_exp y) \<le> y / pow2 (ulp_exp y)"
      using assms(2) pow2_pos [of "ulp_exp y"] by (simp add: divide_right_mono)
    then have "round_half_even (x / pow2 (ulp_exp y)) \<le> round_half_even (y / pow2 (ulp_exp y))"
      by (rule rhe_mono)
    then show ?thesis
      using assms(1) y pow2_pos [of "ulp_exp y"] by (simp add: fl_ulp True)
  next
    case False
    with le have lt: "ulp_exp x < ulp_exp y" by simp
    have "- 1074 \<le> ulp_exp x" by (simp add: ulp_exp_def)
    with lt have n: "ulp_exp y = ilog2 y - 52" using y by (simp add: ulp_exp_def max_def split: if_splits)
    have "fl x \<le> pow2 (ulp_exp x + 53)" using assms(1) by (rule fl_upper_pos)
    also have "\<dots> \<le> pow2 (ilog2 y)" using lt n by (intro pow2_mono) simp
    also have "\<dots> \<le> fl y" using y n by (rule fl_lower_normal)
    finally show ?thesis .
  qed
qed

lemma fl_zero: "fl 0 = 0"
  by (simp add: fl_def)

lemma fl_mono:
  assumes "x \<le> y"
  shows "fl x \<le> fl y"
proof -
  consider "0 < x" | "y < 0" | "x \<le> 0" "0 \<le> y" by linarith
  then show ?thesis
  proof cases
    case 1
    then show ?thesis using assms by (rule fl_mono_pos)
  next
    case 2
    then have "fl (- y) \<le> fl (- x)" using assms by (intro fl_mono_pos) simp_all
    then show ?thesis by (simp add: fl_neg)
  next
    case 3
    have "0 \<le> fl (- x)" using 3(1) by (intro fl_nonneg) simp
    then have "fl x \<le> 0" by (simp add: fl_neg)
    moreover have "0 \<le> fl y" using 3(2) by (rule fl_nonneg)
    ultimately show ?thesis by simp
  qed
qed

section \<open>Evaluating the float operations on numerals\<close>

lemma ilog2_unique:
  assumes "pow2 e \<le> x" "x < pow2 (e + 1)"
  shows "ilog2 x = e"
proof -
  have x: "0 < x" using assms(1) pow2_pos [of e] by linarith
  note b = ilog2_bounds [OF x]
  have "pow2 e < pow2 (ilog2 x + 1)" using assms(1) b by linarith
  then have 1: "e < ilog2 x + 1" by (rule pow2_less_imp)
  have "pow2 (ilog2 x) < pow2 (e + 1)" using assms(2) b by linarith
  then have 2: "ilog2 x < e + 1" by (rule pow2_less_imp)
  from 1 2 show ?thesis by simp
qed

lemma rhe_eval:
  assumes "\<bar>x - of_int k\<bar> < 1 / 2 \<or> (\<bar>x - of_int k\<bar> = 1 / 2 \<and> even k)"
  shows "round_half_even x = k"
proof -
  from assms consider "\<bar>x - of_int k\<bar> < 1 / 2" | "x = of_int k + 1 / 2" "even k"
    | "x = of_int k - 1 / 2" "even k"
    by (auto simp add: abs_if split: if_splits)
  then show ?thesis
  proof cases
    case 1
    have "\<bar>(of_int (round_half_even x) :: rat) - of_int k\<bar> < 1"
      using 1 rhe_lower [of x] rhe_upper [of x] by linarith
    then have "\<bar>(of_int (round_half_even x - k) :: rat)\<bar> < 1" by simp
    then have "\<bar>round_half_even x - k\<bar> < 1"
      by (metis of_int_abs of_int_less_1_iff)
    then show ?thesis by simp
  next
    case 2
    have "\<lfloor>x\<rfloor> = k" unfolding 2(1) by linarith
    then show ?thesis using 2 by (simp add: round_half_even_def)
  next
    case 3
    have "\<lfloor>x\<rfloor> = k - 1" unfolding 3(1) by linarith
    then show ?thesis using 3 by (simp add: round_half_even_def)
  qed
qed

lemma fl_eval:
  assumes "pow2 e \<le> \<bar>x\<bar>" "\<bar>x\<bar> < pow2 (e + 1)"
    and "\<bar>x / pow2 (max (e - 52) (- 1074)) - of_int k\<bar> < 1 / 2
         \<or> (\<bar>x / pow2 (max (e - 52) (- 1074)) - of_int k\<bar> = 1 / 2 \<and> even k)"
    and "of_int k * pow2 (max (e - 52) (- 1074)) = y"
  shows "fl x = y"
proof -
  have "x \<noteq> 0" using assms(1) pow2_pos [of e] by auto
  moreover have "ulp_exp x = max (e - 52) (- 1074)"
    using ilog2_unique [OF assms(1,2)] by (simp add: ulp_exp_def)
  ultimately show ?thesis using rhe_eval [OF assms(3)] assms(4) by (simp add: fl_def)
qed

lemma int_truediv_eval:
  assumes "b \<noteq> 0"
    and "pow2 e \<le> \<bar>of_int a / of_int b\<bar>" "\<bar>of_int a / of_int b\<bar> < pow2 (e + 1)"
    and "\<bar>of_int a / of_int b / pow2 (max (e - 52) (- 1074)) - of_int k\<bar> < 1 / 2
         \<or> (\<bar>of_int a / of_int b / pow2 (max (e - 52) (- 1074)) - of_int k\<bar> = 1 / 2 \<and> even k)"
    and "of_int k * pow2 (max (e - 52) (- 1074)) = y"
    and "\<not> overflows y"
  shows "int_truediv a b = Inr (Fin y)"
  using assms(1,6) fl_eval [OF assms(2-5)] by (simp add: int_truediv_def)

lemma float_of_int_eval:
  assumes "pow2 e \<le> \<bar>of_int n\<bar>" "\<bar>of_int n\<bar> < pow2 (e + 1)"
    and "\<bar>of_int n / pow2 (max (e - 52) (- 1074)) - of_int k\<bar> < 1 / 2
         \<or> (\<bar>of_int n / pow2 (max (e - 52) (- 1074)) - of_int k\<bar> = 1 / 2 \<and> even k)"
    and "of_int k * pow2 (max (e - 52) (- 1074)) = y"
    and "\<not> overflows y"
  shows "float_of_int n = Inr (Fin y)"
  using assms(5) fl_eval [OF assms(1-4)] by (simp add: float_of_int_def)

lemma of_exact_eval:
  assumes "pow2 e \<le> \<bar>x\<bar>" "\<bar>x\<bar> < pow2 (e + 1)"
    and "\<bar>x / pow2 (max (e - 52) (- 1074)) - of_int k\<bar> < 1 / 2
         \<or> (\<bar>x / pow2 (max (e - 52) (- 1074)) - of_int k\<bar> = 1 / 2 \<and> even k)"
    and "of_int k * pow2 (max (e - 52) (- 1074)) = y"
    and "\<not> overflows y"
  shows "of_exact x = Fin y"
  using assms(5) fl_eval [OF assms(1-4)] by (simp add: of_exact_def)

lemma of_exact_eval_PInf:
  assumes "pow2 e \<le> \<bar>x\<bar>" "\<bar>x\<bar> < pow2 (e + 1)"
    and "\<bar>x / pow2 (max (e - 52) (- 1074)) - of_int k\<bar> < 1 / 2
         \<or> (\<bar>x / pow2 (max (e - 52) (- 1074)) - of_int k\<bar> = 1 / 2 \<and> even k)"
    and "pow2 1024 \<le> of_int k * pow2 (max (e - 52) (- 1074))"
  shows "of_exact x = PInf"
proof -
  have "fl x = of_int k * pow2 (max (e - 52) (- 1074))"
    using assms(1-3) by (rule fl_eval) simp
  moreover have "0 < pow2 1024" by (rule pow2_pos)
  ultimately show ?thesis using assms(4) by (simp add: of_exact_def overflows_def)
qed

lemma py_round_eval:
  assumes "\<bar>x * 10 ^ n - of_int m\<bar> < 1 / 2 \<or> (\<bar>x * 10 ^ n - of_int m\<bar> = 1 / 2 \<and> even m)"
    and "pow2 e \<le> \<bar>of_int m / 10 ^ n\<bar>" "\<bar>of_int m / 10 ^ n\<bar> < pow2 (e + 1)"
    and "\<bar>of_int m / 10 ^ n / pow2 (max (e - 52) (- 1074)) - of_int k\<bar> < 1 / 2
         \<or> (\<bar>of_int m / 10 ^ n / pow2 (max (e - 52) (- 1074)) - of_int k\<bar> = 1 / 2 \<and> even k)"
    and "of_int k * pow2 (max (e - 52) (- 1074)) = y"
  shows "py_round (Fin x) n = Fin y"
  using rhe_eval [OF assms(1)] fl_eval [OF assms(2-5)] by simp

lemma py_round_eval_zero:
  assumes "\<bar>x * 10 ^ n\<bar> < 1 / 2"
  shows "py_round (Fin x) n = Fin 0"
  using rhe_eval [of "x * 10 ^ n" 0] assms by (simp add: fl_def)

lemma pow2_numeral: "pow2 (numeral n) = 2 ^ numeral n"
  by (simp add: pow2_def)

lemma pow2_neg_numeral: "pow2 (- numeral n) = 1 / 2 ^ numeral n"
  by (simp add: pow2_def)

lemma pow2_0: "pow2 0 = 1"
  by (simp add: pow2_def)

lemma pow2_1: "pow2 1 = 2"
  by (simp add: pow2_def)

lemma pow2_m1: "pow2 (- 1) = 1 / 2"
  by (simp add: pow2_def)

lemmas pow2_eval = pow2_numeral pow2_neg_numeral pow2_0 pow2_1 pow2_m1 overflows_def

lemma float_sub_PInf: "float_sub (Fin a) PInf = NInf"
  by (simp add: float_sub_def)

lemma py_round_infinite: "py_round PInf n = PInf" "py_round NInf n = NInf" "py_round NaN n = NaN"
  by simp_all

section \<open>Order and finiteness of the float operations\<close>

lemma fl_pow2:
  assumes "- 1074 \<le> k"
  shows "fl (pow2 k) = pow2 k"
proof -
  let ?u = "max (k - 52) (- 1074)"
  have u: "?u \<le> k" using assms by simp
  have "pow2 k < pow2 (k + 1)"
    using pow2_pos [of k] by (simp add: pow2_add pow2_1)
  then have "ilog2 (pow2 k) = k" by (intro ilog2_unique) simp_all
  then have ulp: "ulp_exp (pow2 k) = ?u"
    using pow2_pos [of k] by (simp add: ulp_exp_def)
  have "pow2 k = pow2 (k - ?u) * pow2 ?u" by (simp flip: pow2_add)
  then have q: "pow2 k / pow2 ?u = pow2 (k - ?u)"
    using pow2_pos [of ?u] by (simp add: field_simps)
  have "pow2 (k - ?u) = of_int (2 ^ nat (k - ?u))" using u by (simp add: pow2_def)
  then have "round_half_even (pow2 k / pow2 ?u) = 2 ^ nat (k - ?u)"
    unfolding q by (simp only: rhe_of_int)
  then have "fl (pow2 k) = of_int (2 ^ nat (k - ?u)) * pow2 ?u"
    using pow2_pos [of k] by (simp add: fl_ulp ulp)
  also have "\<dots> = pow2 (k - ?u) * pow2 ?u" using u by (simp add: pow2_def)
  also have "\<dots> = pow2 k" by (simp flip: pow2_add)
  finally show ?thesis .
qed

lemma abs_fl_le_pow2:
  assumes "\<bar>x\<bar> \<le> pow2 k" and "- 1074 \<le> k"
  shows "\<bar>fl x\<bar> \<le> pow2 k"
proof -
  have "fl x \<le> fl (pow2 k)" using assms(1) by (intro fl_mono) simp
  moreover have "fl (- pow2 k) \<le> fl x" using assms(1) by (intro fl_mono) simp
  ultimately show ?thesis by (simp add: fl_neg fl_pow2 [OF assms(2)] abs_le_iff)
qed

lemma not_overflows_fl:
  assumes "\<bar>x\<bar> \<le> pow2 k" and "- 1074 \<le> k" and "k < 1024"
  shows "\<not> overflows (fl x)"
proof -
  have "\<bar>fl x\<bar> \<le> pow2 k" using assms(1,2) by (rule abs_fl_le_pow2)
  moreover have "pow2 k < pow2 1024"
  proof -
    have "pow2 (k + 1) \<le> pow2 1024" using assms(3) by (intro pow2_mono) simp
    moreover have "pow2 k < pow2 (k + 1)" using pow2_pos [of k] by (simp add: pow2_add pow2_1)
    ultimately show ?thesis by simp
  qed
  ultimately show ?thesis by (simp add: overflows_def)
qed

lemma of_exact_not_NaN: "of_exact x \<noteq> NaN"
  by (simp add: of_exact_def Let_def)

lemma of_exact_finite:
  assumes "\<bar>x\<bar> \<le> pow2 k" and "- 1074 \<le> k" and "k < 1024"
  shows "of_exact x = Fin (fl x)"
  using not_overflows_fl [OF assms] by (simp add: of_exact_def)

lemma of_exact_mono:
  assumes "x \<le> y"
  shows "float_le (of_exact x) (of_exact y)"
proof -
  have le: "fl x \<le> fl y" using assms by (rule fl_mono)
  have p: "0 < pow2 1024" by (rule pow2_pos)
  show ?thesis
    using le p by (auto simp add: of_exact_def overflows_def Let_def abs_if split: if_splits)
qed

lemma float_le_refl: "x \<noteq> NaN \<Longrightarrow> float_le x x"
  by (cases x) simp_all

lemma float_le_trans: "float_le x y \<Longrightarrow> float_le y z \<Longrightarrow> float_le x z"
  by (cases x; cases y; cases z) simp_all

lemma float_lt_le_trans: "float_lt x y \<Longrightarrow> float_le y z \<Longrightarrow> float_lt x z"
  by (cases x; cases y; cases z) simp_all

lemma float_le_lt_trans: "float_le x y \<Longrightarrow> float_lt y z \<Longrightarrow> float_lt x z"
  by (cases x; cases y; cases z) simp_all

lemma py_round_mono:
  assumes "float_le x y"
  shows "float_le (py_round x n) (py_round y n)"
proof (cases x)
  case (Fin a)
  note x = this
  show ?thesis
  proof (cases y)
    case (Fin b)
    with x assms have "a \<le> b" by simp
    then have "a * 10 ^ n \<le> b * 10 ^ n" by simp
    then have "round_half_even (a * 10 ^ n) \<le> round_half_even (b * 10 ^ n)"
      by (rule rhe_mono)
    then have "(of_int (round_half_even (a * 10 ^ n)) :: rat) / 10 ^ n
        \<le> of_int (round_half_even (b * 10 ^ n)) / 10 ^ n"
      by (simp add: divide_right_mono)
    then show ?thesis unfolding x Fin py_round.simps float_le.simps by (rule fl_mono)
  qed (use x assms in simp_all)
qed (use assms in \<open>cases y; simp\<close>)+

lemma py_round_zero: "py_round (Fin 0) n = Fin 0"
  by (simp add: round_half_even_def fl_def)

lemma float_mul_mono_right:
  assumes "a \<le> b" and "0 \<le> c"
  shows "float_le (float_mul (Fin a) (Fin c)) (float_mul (Fin b) (Fin c))"
  using assms by (simp add: of_exact_mono mult_right_mono)

lemma float_le_NInf: "float_le NInf z \<longleftrightarrow> z \<noteq> NaN"
  by (cases z) simp_all

lemma float_le_PInf: "float_le z PInf \<longleftrightarrow> z \<noteq> NaN"
  by (cases z) simp_all

lemma float_sub_Fin: "float_sub (Fin c) (Fin a) = of_exact (c - a)"
  by (simp add: float_sub_def)

lemma float_sub_anti_right:
  assumes "float_le x y"
  shows "float_le (float_sub (Fin c) y) (float_sub (Fin c) x)"
proof (cases x)
  case (Fin a)
  note x = this
  show ?thesis
  proof (cases y)
    case (Fin b)
    with x assms have "c - b \<le> c - a" by simp
    then show ?thesis unfolding x Fin float_sub_Fin by (rule of_exact_mono)
  next
    case PInf
    then show ?thesis
      unfolding x float_sub_Fin by (simp add: float_sub_def float_le_NInf of_exact_not_NaN)
  qed (use x assms in simp_all)
next
  case NInf
  then show ?thesis
    using assms
    by (cases y) (simp_all add: float_sub_def float_le_PInf of_exact_not_NaN)
qed (use assms in \<open>cases y; simp add: float_sub_def\<close>)+

lemma int_truediv_cases:
  assumes "b \<noteq> 0"
  shows "int_truediv a b = Inl OverflowError
    \<or> (int_truediv a b = Inr (Fin (fl (of_int a / of_int b)))
       \<and> \<not> overflows (fl (of_int a / of_int b)))"
  using assms by (simp add: int_truediv_def Let_def)

lemma int_truediv_bounded:
  assumes "0 < b" and "\<bar>a\<bar> \<le> 2 ^ n" and "n < 1024"
  shows "int_truediv a b = Inr (Fin (fl (of_int a / of_int b)))
    \<and> \<bar>fl (of_int a / of_int b)\<bar> \<le> pow2 (int n)"
proof -
  have b: "(1::rat) \<le> of_int b" using assms(1) by simp
  have "\<bar>(of_int a :: rat) / of_int b\<bar> = \<bar>of_int a\<bar> / of_int b"
    using assms(1) by simp
  also have "\<dots> \<le> \<bar>of_int a\<bar> / 1"
    using b by (intro divide_left_mono) simp_all
  also have "\<dots> = of_int \<bar>a\<bar>" by simp
  also have "\<dots> \<le> of_int (2 ^ n)" using assms(2) by (simp only: of_int_le_iff)
  also have "\<dots> = pow2 (int n)" by (simp add: pow2_def)
  finally have le: "\<bar>(of_int a :: rat) / of_int b\<bar> \<le> pow2 (int n)" .
  then have "\<not> overflows (fl (of_int a / of_int b))"
    using assms(3) by (intro not_overflows_fl [of _ "int n"]) simp_all
  moreover have "\<bar>fl (of_int a / of_int b)\<bar> \<le> pow2 (int n)"
    using le by (rule abs_fl_le_pow2) simp
  ultimately show ?thesis using assms(1) by (simp add: int_truediv_def)
qed

lemma fl_error: "\<bar>fl x - x\<bar> \<le> pow2 (ulp_exp x) / 2"
proof (cases "x = 0")
  case True
  then show ?thesis using pow2_pos [of "ulp_exp x"] by (simp add: fl_zero)
next
  case False
  let ?u = "pow2 (ulp_exp x)"
  let ?k = "of_int (round_half_even (x / ?u)) :: rat"
  have u: "0 < ?u" by (rule pow2_pos)
  have "\<bar>?k - x / ?u\<bar> \<le> 1 / 2"
    using rhe_lower [of "x / ?u"] rhe_upper [of "x / ?u"] by linarith
  then have "\<bar>?k - x / ?u\<bar> * ?u \<le> 1 / 2 * ?u"
    using u by (intro mult_right_mono) simp_all
  moreover have "\<bar>?k - x / ?u\<bar> * ?u = \<bar>?k * ?u - x\<bar>"
  proof -
    have "\<bar>?k - x / ?u\<bar> * ?u = \<bar>(?k - x / ?u) * ?u\<bar>" using u by (simp add: abs_mult)
    also have "(?k - x / ?u) * ?u = ?k * ?u - x" using u by (simp add: field_simps)
    finally show ?thesis .
  qed
  ultimately show ?thesis using False by (simp add: fl_ulp)
qed

lemma ulp_exp_below:
  assumes "x \<noteq> 0" and "\<bar>x\<bar> < pow2 k" and "- 1021 \<le> k"
  shows "ulp_exp x \<le> k - 53"
proof -
  have "0 < \<bar>x\<bar>" using assms(1) by simp
  then have "pow2 (ilog2 \<bar>x\<bar>) \<le> \<bar>x\<bar>" using ilog2_bounds by blast
  then have "pow2 (ilog2 \<bar>x\<bar>) < pow2 k" using assms(2) by simp
  then have "ilog2 \<bar>x\<bar> < k" by (rule pow2_less_imp)
  then show ?thesis using assms(3) by (simp add: ulp_exp_def)
qed

lemma fl_error_below:
  assumes "\<bar>x\<bar> < pow2 k" and "- 1021 \<le> k"
  shows "\<bar>fl x - x\<bar> \<le> pow2 (k - 54)"
proof (cases "x = 0")
  case True
  then show ?thesis using pow2_pos [of "k - 54"] by (simp add: fl_zero)
next
  case False
  have "pow2 (ulp_exp x) \<le> pow2 (k - 53)"
    using ulp_exp_below [OF False assms] by (rule pow2_mono)
  also have "pow2 (k - 53) = pow2 (k - 54) * 2"
    using pow2_add [of "k - 54" 1] by (simp add: pow2_1)
  finally have "pow2 (ulp_exp x) / 2 \<le> pow2 (k - 54)" by simp
  with fl_error [of x] show ?thesis by simp
qed

section \<open>The calculations on concrete records\<close>

lemma float_of_int_3650:
  "float_of_int 3650 = Inr (Fin 3650)"
  by (rule float_of_int_eval [where e = "11" and k = "8026434882764800"]) (simp_all add: pow2_eval)

lemma temperature_scenario:
  "float_truediv (Fin 3650) (Fin 100) = Inr (Fin (73 / 2))"
  by (simp del: One_nat_def, rule of_exact_eval [where e = "5" and k = "5136918324969472"]) (simp_all add: pow2_eval)

lemma round_temperature_scenario:
  "py_round (Fin (73 / 2)) 1 = Fin (73 / 2)"
  by (rule py_round_eval [where m = "365" and e = "5" and k = "5136918324969472"]) (simp_all add: pow2_eval)

lemma float_of_int_12000:
  "float_of_int 12000 = Inr (Fin 12000)"
  by (rule float_of_int_eval [where e = "13" and k = "6597069766656000"]) (simp_all add: pow2_eval)

lemma voltage_scenario:
  "float_truediv (Fin 12000) (Fin 1000) = Inr (Fin 12)"
  by (simp del: One_nat_def, rule of_exact_eval [where e = "3" and k = "6755399441055744"]) (simp_all add: pow2_eval)

lemma round_voltage_scenario:
  "py_round (Fin 12) 2 = Fin 12"
  by (rule py_round_eval [where m = "1200" and e = "3" and k = "6755399441055744"]) (simp_all add: pow2_eval)

lemma power_scenario:
  "int_truediv 18000000 1000000 = Inr (Fin 18)"
  by (rule int_truediv_eval [where e = "4" and k = "5066549580791808"]) (simp_all add: pow2_eval)

lemma round_power_scenario:
  "py_round (Fin 18) 2 = Fin 18"
  by (rule py_round_eval [where m = "1800" and e = "4" and k = "5066549580791808"]) (simp_all add: pow2_eval)

lemma health_quotient_scenario:
  "int_truediv 2700 3000 = Inr (Fin (8106479329266893 / 9007199254740992))"
  by (rule int_truediv_eval [where e = "- 1" and k = "8106479329266893"]) (simp_all add: pow2_eval)

lemma health_scenario:
  "float_mul (Fin (8106479329266893 / 9007199254740992)) (Fin 100) = Fin 90"
  unfolding float_mul.simps
  by (rule of_exact_eval [where e = "6" and k = "6333186975989760"]) (simp_all add: pow2_eval)

lemma wear_scenario:
  "float_sub (Fin 100) (Fin 90) = Fin 10"
  unfolding float_sub_def float_neg.simps float_add.simps
  by (rule of_exact_eval [where e = "3" and k = "5629499534213120"]) (simp_all add: pow2_eval)

lemma round_health_scenario:
  "py_round (Fin 90) 2 = Fin 90"
  by (rule py_round_eval [where m = "9000" and e = "6" and k = "6333186975989760"]) (simp_all add: pow2_eval)

lemma round_wear_scenario:
  "py_round (Fin 10) 2 = Fin 10"
  by (rule py_round_eval [where m = "1000" and e = "3" and k = "5629499534213120"]) (simp_all add: pow2_eval)

lemma percentage_quotient_scenario:
  "int_truediv 2000 2700 = Inr (Fin (3335999723978145 / 4503599627370496))"
  by (rule int_truediv_eval [where e = "- 1" and k = "6671999447956290"]) (simp_all add: pow2_eval)

lemma percentage_scenario:
  "float_mul (Fin (3335999723978145 / 4503599627370496)) (Fin 100) = Fin (1303124892178963 / 17592186044416)"
  unfolding float_mul.simps
  by (rule of_exact_eval [where e = "6" and k = "5212499568715852"]) (simp_all add: pow2_eval)

lemma round_percentage_scenario:
  "py_round (Fin (1303124892178963 / 17592186044416)) 2 = Fin (1303053220309893 / 17592186044416)"
  by (rule py_round_eval [where m = "7407" and e = "6" and k = "5212212881239572"]) (simp_all add: pow2_eval)

lemma derive_scenario:
  "derive scenario now =
     Inr \<lparr> source = scenario,
           voltage_v = Fin 12, power_watts = Fin 18,
           temperature_celsius = Fin (73 / 2),
           wear_level_pct = Fin 10,
           real_health_pct = Fin 90,
           real_percentage = Fin (1303053220309893 / 17592186044416),
           charging_status = ''Not Charging'', timestamp = now \<rparr>"
  by (simp add: derive_def temperature_celsius_of_def voltage_v_of_def power_watts_of_def
      wear_level_of_def real_health_pct_of_def real_percentage_of_def charging_status_of_def
      and_then_def scenario_def
      float_of_int_3650 temperature_scenario round_temperature_scenario float_of_int_12000
      voltage_scenario round_voltage_scenario power_scenario round_power_scenario
      health_quotient_scenario health_scenario wear_scenario round_health_scenario
      round_wear_scenario percentage_quotient_scenario percentage_scenario
      round_percentage_scenario
      del: float_mul.simps float_truediv.simps py_round.simps One_nat_def)

lemma health_quotient_unequal:
  "int_truediv 23 160 = Inr (Fin (2589569785738035 / 18014398509481984))"
  by (rule int_truediv_eval [where e = "- 3" and k = "5179139571476070"]) (simp_all add: pow2_eval)

lemma health_unequal:
  "float_mul (Fin (2589569785738035 / 18014398509481984)) (Fin 100) = Fin (8092405580431359 / 562949953421312)"
  unfolding float_mul.simps
  by (rule of_exact_eval [where e = "3" and k = "8092405580431359"]) (simp_all add: pow2_eval)

lemma wear_unequal:
  "float_sub (Fin 100) (Fin (8092405580431359 / 562949953421312)) = Fin (685 / 8)"
  unfolding float_sub_def float_neg.simps float_add.simps
  by (rule of_exact_eval [where e = "6" and k = "6025323720212480"]) (simp_all add: pow2_eval)

lemma round_health_unequal:
  "py_round (Fin (8092405580431359 / 562949953421312)) 2 = Fin (8089590830664253 / 562949953421312)"
  by (rule py_round_eval [where m = "1437" and e = "3" and k = "8089590830664253"]) (simp_all add: pow2_eval)

lemma round_wear_unequal:
  "py_round (Fin (685 / 8)) 2 = Fin (753121484561449 / 8796093022208)"
  by (rule py_round_eval [where m = "8562" and e = "6" and k = "6024971876491592"]) (simp_all add: pow2_eval)

lemma percentage_quotient_unequal:
  "int_truediv 2000 23 = Inr (Fin (1529755308210087 / 17592186044416))"
  by (rule int_truediv_eval [where e = "6" and k = "6119021232840348"]) (simp_all add: pow2_eval)

lemma percentage_unequal:
  "float_mul (Fin (1529755308210087 / 17592186044416)) (Fin 100) = Fin (2390242669078261 / 274877906944)"
  unfolding float_mul.simps
  by (rule of_exact_eval [where e = "13" and k = "4780485338156522"]) (simp_all add: pow2_eval)

lemma round_percentage_unequal:
  "py_round (Fin (2390242669078261 / 274877906944)) 2 = Fin (4780484143035187 / 549755813888)"
  by (rule py_round_eval [where m = "869565" and e = "13" and k = "4780484143035187"]) (simp_all add: pow2_eval)

lemma derive_unequal:
  "derive (scenario\<lparr>apple_raw_max_capacity := 23, design_capacity := 160\<rparr>) now =
     Inr \<lparr> source = scenario\<lparr>apple_raw_max_capacity := 23, design_capacity := 160\<rparr>,
           voltage_v = Fin 12, power_watts = Fin 18,
           temperature_celsius = Fin (73 / 2),
           wear_level_pct = Fin (753121484561449 / 8796093022208),
           real_health_pct = Fin (8089590830664253 / 562949953421312),
           real_percentage = Fin (4780484143035187 / 549755813888),
           charging_status = ''Not Charging'', timestamp = now \<rparr>"
  by (simp add: derive_def temperature_celsius_of_def voltage_v_of_def power_watts_of_def
      wear_level_of_def real_health_pct_of_def real_percentage_of_def charging_status_of_def
      and_then_def scenario_def
      float_of_int_3650 temperature_scenario round_temperature_scenario float_of_int_12000
      voltage_scenario round_voltage_scenario power_scenario round_power_scenario
      health_quotient_unequal health_unequal wear_unequal round_health_unequal
      round_wear_unequal percentage_quotient_unequal percentage_unequal round_percentage_unequal
      del: float_mul.simps float_truediv.simps py_round.simps One_nat_def)

lemma health_quotient_near_design:
  "int_truediv 30001 30000 = Inr (Fin (4503749747358075 / 4503599627370496))"
  by (rule int_truediv_eval [where e = "0" and k = "4503749747358075"]) (simp_all add: pow2_eval)

lemma health_near_design:
  "float_mul (Fin (4503749747358075 / 4503599627370496)) (Fin 100) = Fin (439819311265437 / 4398046511104)"
  unfolding float_mul.simps
  by (rule of_exact_eval [where e = "6" and k = "7037108980246992"]) (simp_all add: pow2_eval)

lemma wear_near_design:
  "float_sub (Fin 100) (Fin (439819311265437 / 4398046511104)) = Fin (- (14660155037 / 4398046511104))"
  unfolding float_sub_def float_neg.simps float_add.simps
  by (rule of_exact_eval [where e = "- 9" and k = "- 7686143364038656"]) (simp_all add: pow2_eval)

lemma round_health_near_design:
  "py_round (Fin (439819311265437 / 4398046511104)) 2 = Fin 100"
  by (rule py_round_eval [where m = "10000" and e = "6" and k = "7036874417766400"]) (simp_all add: pow2_eval)

lemma round_wear_near_design:
  "py_round (Fin (- (14660155037 / 4398046511104))) 2 = Fin 0"
  by (rule py_round_eval_zero) simp

lemma percentage_quotient_near_design:
  "int_truediv 30002 30001 = Inr (Fin (2251874871177121 / 2251799813685248))"
  by (rule int_truediv_eval [where e = "0" and k = "4503749742354242"]) (simp_all add: pow2_eval)

lemma percentage_near_design:
  "float_mul (Fin (2251874871177121 / 2251799813685248)) (Fin 100) = Fin (7037108972428503 / 70368744177664)"
  unfolding float_mul.simps
  by (rule of_exact_eval [where e = "6" and k = "7037108972428503"]) (simp_all add: pow2_eval)

lemma round_percentage_near_design:
  "py_round (Fin (7037108972428503 / 70368744177664)) 2 = Fin 100"
  by (rule py_round_eval [where m = "10000" and e = "6" and k = "7036874417766400"]) (simp_all add: pow2_eval)

lemma derive_near_design:
  "derive (scenario\<lparr>apple_raw_max_capacity := 30001, design_capacity := 30000, apple_raw_current_capacity := 30002\<rparr>) now =
     Inr \<lparr> source = scenario\<lparr>apple_raw_max_capacity := 30001, design_capacity := 30000, apple_raw_current_capacity := 30002\<rparr>,
           voltage_v = Fin 12, power_watts = Fin 18,
           temperature_celsius = Fin (73 / 2),
           wear_level_pct = Fin 0,
           real_health_pct = Fin 100,
           real_percentage = Fin 100,
           charging_status = ''Not Charging'', timestamp = now \<rparr>"
  by (simp add: derive_def temperature_celsius_of_def voltage_v_of_def power_watts_of_def
      wear_level_of_def real_health_pct_of_def real_percentage_of_def charging_status_of_def
      and_then_def scenario_def
      float_of_int_3650 temperature_scenario round_temperature_scenario float_of_int_12000
      voltage_scenario round_voltage_scenario power_scenario round_power_scenario
      health_quotient_near_design health_near_design wear_near_design round_health_near_design
      round_wear_near_design percentage_quotient_near_design percentage_near_design
      round_percentage_near_design
      del: float_mul.simps float_truediv.simps py_round.simps One_nat_def)

lemma health_quotient_huge:
  "int_truediv 10000000000000000000000000000000000000000000000000000000000000000000000000000000000000000000000000000000000000000000000000000000000000000000000000000000000000000000000000000000000000000000000000000000000000000000000000000000000000000000000000000000000000000000000000000000000000000000000000000000000000000000 1 = Inr (Fin 9999999999999999860310597602564577717002641838126363875249660735883565852672743849064846414228960666786379280392654615393353172850252103336275952370615397010730691664689375178569039851073146339641623266071126720011020169553304018596457812688561947201171488461172921822139066929851282122002676667750021070848)"
  by (rule int_truediv_eval [where e = "1019" and k = "8016673440035891"]) (simp_all add: pow2_eval)

lemma health_huge:
  "float_mul (Fin 9999999999999999860310597602564577717002641838126363875249660735883565852672743849064846414228960666786379280392654615393353172850252103336275952370615397010730691664689375178569039851073146339641623266071126720011020169553304018596457812688561947201171488461172921822139066929851282122002676667750021070848) (Fin 100) = PInf"
  unfolding float_mul.simps
  by (rule of_exact_eval_PInf [where e = "1026" and k = "6263026125028040"]) (simp_all add: pow2_eval)

lemma percentage_quotient_huge:
  "int_truediv 2000 10000000000000000000000000000000000000000000000000000000000000000000000000000000000000000000000000000000000000000000000000000000000000000000000000000000000000000000000000000000000000000000000000000000000000000000000000000000000000000000000000000000000000000000000000000000000000000000000000000000000000000000 = Inr (Fin (4941461262385513 / 24707306311927565716857342128774085333197833223161879682238935306082805123046306993647507776054336486228891340858985829027076261887914242781617846672453431386903982455635542158748401823985988322905245077938567513252198179128990807936780194781391547404884040101606295111368825026273254703636026307207764436438929167613952))"
  by (rule int_truediv_eval [where e = "- 1009" and k = "4941461262385513"]) (simp_all add: pow2_eval)

lemma percentage_huge:
  "float_mul (Fin (4941461262385513 / 24707306311927565716857342128774085333197833223161879682238935306082805123046306993647507776054336486228891340858985829027076261887914242781617846672453431386903982455635542158748401823985988322905245077938567513252198179128990807936780194781391547404884040101606295111368825026273254703636026307207764436438929167613952)) (Fin 100) = Fin (1930258305619341 / 96512915280967053581473992690523770832804036027976092508745841039385957511899636693935577250212251899331606800230413394637016647999665010865694713564271216355093681467326336557610944624945266886348613585697529348641399137222620343503047635864810732050328281646899590278784472758879901186078227762530329829839567060992)"
  unfolding float_mul.simps
  by (rule of_exact_eval [where e = "- 1003" and k = "7721033222477364"]) (simp_all add: pow2_eval)

lemma round_percentage_huge:
  "py_round (Fin (1930258305619341 / 96512915280967053581473992690523770832804036027976092508745841039385957511899636693935577250212251899331606800230413394637016647999665010865694713564271216355093681467326336557610944624945266886348613585697529348641399137222620343503047635864810732050328281646899590278784472758879901186078227762530329829839567060992)) 2 = Fin 0"
  by (rule py_round_eval_zero) simp

lemma derive_huge:
  "derive (scenario\<lparr>apple_raw_max_capacity := 10000000000000000000000000000000000000000000000000000000000000000000000000000000000000000000000000000000000000000000000000000000000000000000000000000000000000000000000000000000000000000000000000000000000000000000000000000000000000000000000000000000000000000000000000000000000000000000000000000000000000000000, design_capacity := 1\<rparr>) now =
     Inr \<lparr> source = scenario\<lparr>apple_raw_max_capacity := 10000000000000000000000000000000000000000000000000000000000000000000000000000000000000000000000000000000000000000000000000000000000000000000000000000000000000000000000000000000000000000000000000000000000000000000000000000000000000000000000000000000000000000000000000000000000000000000000000000000000000000000, design_capacity := 1\<rparr>,
           voltage_v = Fin 12, power_watts = Fin 18,
           temperature_celsius = Fin (73 / 2),
           wear_level_pct = NInf,
           real_health_pct = PInf,
           real_percentage = Fin 0,
           charging_status = ''Not Charging'', timestamp = now \<rparr>"
  by (simp add: derive_def temperature_celsius_of_def voltage_v_of_def power_watts_of_def
      wear_level_of_def real_health_pct_of_def real_percentage_of_def charging_status_of_def
      and_then_def scenario_def
      float_of_int_3650 temperature_scenario round_temperature_scenario float_of_int_12000
      voltage_scenario round_voltage_scenario power_scenario round_power_scenario
      health_quotient_huge health_huge float_sub_PInf py_round_infinite percentage_quotient_huge
      percentage_huge round_percentage_huge
      del: float_mul.simps float_truediv.simps py_round.simps One_nat_def)

lemma round_health_degenerate:
  "py_round (Fin 0) 2 = Fin 0"
  by (rule py_round_eval_zero) simp

lemma derive_degenerate:
  "derive (scenario\<lparr>apple_raw_max_capacity := 0, design_capacity := 0\<rparr>) now =
     Inr \<lparr> source = scenario\<lparr>apple_raw_max_capacity := 0, design_capacity := 0\<rparr>,
           voltage_v = Fin 12, power_watts = Fin 18,
           temperature_celsius = Fin (73 / 2),
           wear_level_pct = Fin 0,
           real_health_pct = Fin 0,
           real_percentage = Fin 0,
           charging_status = ''Not Charging'', timestamp = now \<rparr>"
  by (simp add: derive_def temperature_celsius_of_def voltage_v_of_def power_watts_of_def
      wear_level_of_def real_health_pct_of_def real_percentage_of_def charging_status_of_def
      and_then_def scenario_def
      float_of_int_3650 temperature_scenario round_temperature_scenario float_of_int_12000
      voltage_scenario round_voltage_scenario power_scenario round_power_scenario
      round_health_degenerate
      del: float_mul.simps float_truediv.simps py_round.simps One_nat_def)

lemma float_of_int_m12000:
  "float_of_int (- 12000) = Inr (Fin (- 12000))"
  by (rule float_of_int_eval [where e = "13" and k = "- 6597069766656000"]) (simp_all add: pow2_eval)

lemma voltage_negative_voltage:
  "float_truediv (Fin (- 12000)) (Fin 1000) = Inr (Fin (- 12))"
  by (simp del: One_nat_def, rule of_exact_eval [where e = "3" and k = "- 6755399441055744"]) (simp_all add: pow2_eval)

lemma round_voltage_negative_voltage:
  "py_round (Fin (- 12)) 2 = Fin (- 12)"
  by (rule py_round_eval [where m = "- 1200" and e = "3" and k = "- 6755399441055744"]) (simp_all add: pow2_eval)

lemma power_negative_voltage:
  "int_truediv (- 18000000) 1000000 = Inr (Fin (- 18))"
  by (rule int_truediv_eval [where e = "4" and k = "- 5066549580791808"]) (simp_all add: pow2_eval)

lemma round_power_negative_voltage:
  "py_round (Fin (- 18)) 2 = Fin (- 18)"
  by (rule py_round_eval [where m = "- 1800" and e = "4" and k = "- 5066549580791808"]) (simp_all add: pow2_eval)

lemma derive_negative_voltage:
  "derive (scenario\<lparr>voltage_mv := - 12000, amperage_ma := 1500\<rparr>) now =
     Inr \<lparr> source = scenario\<lparr>voltage_mv := - 12000, amperage_ma := 1500\<rparr>,
           voltage_v = Fin (- 12), power_watts = Fin (- 18),
           temperature_celsius = Fin (73 / 2),
           wear_level_pct = Fin 10,
           real_health_pct = Fin 90,
           real_percentage = Fin (1303053220309893 / 17592186044416),
           charging_status = ''Not Charging'', timestamp = now \<rparr>"
  by (simp add: derive_def temperature_celsius_of_def voltage_v_of_def power_watts_of_def
      wear_level_of_def real_health_pct_of_def real_percentage_of_def charging_status_of_def
      and_then_def scenario_def
      float_of_int_3650 temperature_scenario round_temperature_scenario float_of_int_m12000
      voltage_negative_voltage round_voltage_negative_voltage power_negative_voltage
      round_power_negative_voltage health_quotient_scenario health_scenario wear_scenario
      round_health_scenario round_wear_scenario percentage_quotient_scenario percentage_scenario
      round_percentage_scenario
      del: float_mul.simps float_truediv.simps py_round.simps One_nat_def)

lemma float_of_int_3657:
  "float_of_int 3657 = Inr (Fin 3657)"
  by (rule float_of_int_eval [where e = "11" and k = "8041828045553664"]) (simp_all add: pow2_eval)

lemma temperature_rounding:
  "float_truediv (Fin 3657) (Fin 100) = Inr (Fin (5146769949154345 / 140737488355328))"
  by (simp del: One_nat_def, rule of_exact_eval [where e = "5" and k = "5146769949154345"]) (simp_all add: pow2_eval)

lemma round_temperature_rounding:
  "py_round (Fin (5146769949154345 / 140737488355328)) 1 = Fin (5150992073805005 / 140737488355328)"
  by (rule py_round_eval [where m = "366" and e = "5" and k = "5150992073805005"]) (simp_all add: pow2_eval)

lemma float_of_int_12345:
  "float_of_int 12345 = Inr (Fin 12345)"
  by (rule float_of_int_eval [where e = "13" and k = "6786735522447360"]) (simp_all add: pow2_eval)

lemma voltage_rounding:
  "float_truediv (Fin 12345) (Fin 1000) = Inr (Fin (6949617174986097 / 562949953421312))"
  by (simp del: One_nat_def, rule of_exact_eval [where e = "3" and k = "6949617174986097"]) (simp_all add: pow2_eval)

lemma round_voltage_rounding:
  "py_round (Fin (6949617174986097 / 562949953421312)) 2 = Fin (6952431924753203 / 562949953421312)"
  by (rule py_round_eval [where m = "1235" and e = "3" and k = "6952431924753203"]) (simp_all add: pow2_eval)

lemma power_rounding:
  "int_truediv 18517500 1000000 = Inr (Fin (1303053220309893 / 70368744177664))"
  by (rule int_truediv_eval [where e = "4" and k = "5212212881239572"]) (simp_all add: pow2_eval)

lemma round_power_rounding:
  "py_round (Fin (1303053220309893 / 70368744177664)) 2 = Fin (5212916568681349 / 281474976710656)"
  by (rule py_round_eval [where m = "1852" and e = "4" and k = "5212916568681349"]) (simp_all add: pow2_eval)

lemma derive_rounding:
  "derive (scenario\<lparr>apple_raw_max_capacity := 23, design_capacity := 160, voltage_mv := 12345, temperature_raw := 3657\<rparr>) now =
     Inr \<lparr> source = scenario\<lparr>apple_raw_max_capacity := 23, design_capacity := 160, voltage_mv := 12345, temperature_raw := 3657\<rparr>,
           voltage_v = Fin (6952431924753203 / 562949953421312), power_watts = Fin (5212916568681349 / 281474976710656),
           temperature_celsius = Fin (5150992073805005 / 140737488355328),
           wear_level_pct = Fin (753121484561449 / 8796093022208),
           real_health_pct = Fin (8089590830664253 / 562949953421312),
           real_percentage = Fin (4780484143035187 / 549755813888),
           charging_status = ''Not Charging'', timestamp = now \<rparr>"
  by (simp add: derive_def temperature_celsius_of_def voltage_v_of_def power_watts_of_def
      wear_level_of_def real_health_pct_of_def real_percentage_of_def charging_status_of_def
      and_then_def scenario_def
      float_of_int_3657 temperature_rounding round_temperature_rounding float_of_int_12345
      voltage_rounding round_voltage_rounding power_rounding round_power_rounding
      health_quotient_unequal health_unequal wear_unequal round_health_unequal
      round_wear_unequal percentage_quotient_unequal percentage_unequal round_percentage_unequal
      del: float_mul.simps float_truediv.simps py_round.simps One_nat_def)

lemma fl_366:
  "fl (183 / 5) = 5150992073805005 / 140737488355328"
  by (rule fl_eval [where e = "5" and k = "5150992073805005"]) (simp_all add: pow2_eval)

lemma fl_1235:
  "fl (247 / 20) = 6952431924753203 / 562949953421312"
  by (rule fl_eval [where e = "3" and k = "6952431924753203"]) (simp_all add: pow2_eval)

lemma fl_1852:
  "fl (463 / 25) = 5212916568681349 / 281474976710656"
  by (rule fl_eval [where e = "4" and k = "5212916568681349"]) (simp_all add: pow2_eval)

lemma fl_869565:
  "fl (173913 / 20) = 4780484143035187 / 549755813888"
  by (rule fl_eval [where e = "13" and k = "4780484143035187"]) (simp_all add: pow2_eval)

lemma health_quotient_above_design:
  "int_truediv 3300 3000 = Inr (Fin (2476979795053773 / 2251799813685248))"
  by (rule int_truediv_eval [where e = "0" and k = "4953959590107546"]) (simp_all add: pow2_eval)

lemma health_above_design:
  "float_mul (Fin (2476979795053773 / 2251799813685248)) (Fin 100) = Fin (7740561859543041 / 70368744177664)"
  unfolding float_mul.simps
  by (rule of_exact_eval [where e = "6" and k = "7740561859543041"]) (simp_all add: pow2_eval)

lemma wear_above_design:
  "float_sub (Fin 100) (Fin (7740561859543041 / 70368744177664)) = Fin (- (703687441776641 / 70368744177664))"
  unfolding float_sub_def float_neg.simps float_add.simps
  by (rule of_exact_eval [where e = "3" and k = "- 5629499534213128"]) (simp_all add: pow2_eval)

lemma round_health_above_design:
  "py_round (Fin (7740561859543041 / 70368744177664)) 2 = Fin 110"
  by (rule py_round_eval [where m = "11000" and e = "6" and k = "7740561859543040"]) (simp_all add: pow2_eval)

lemma round_wear_above_design:
  "py_round (Fin (- (703687441776641 / 70368744177664))) 2 = Fin (- 10)"
  by (rule py_round_eval [where m = "- 1000" and e = "3" and k = "- 5629499534213120"]) (simp_all add: pow2_eval)

lemma percentage_quotient_above_design:
  "int_truediv 3630 3300 = Inr (Fin (2476979795053773 / 2251799813685248))"
  by (rule int_truediv_eval [where e = "0" and k = "4953959590107546"]) (simp_all add: pow2_eval)

lemma derive_above_design:
  "derive (scenario\<lparr>apple_raw_max_capacity := 3300, design_capacity := 3000, apple_raw_current_capacity := 3630\<rparr>) now =
     Inr \<lparr> source = scenario\<lparr>apple_raw_max_capacity := 3300, design_capacity := 3000, apple_raw_current_capacity := 3630\<rparr>,
           voltage_v = Fin 12, power_watts = Fin 18,
           temperature_celsius = Fin (73 / 2),
           wear_level_pct = Fin (- 10),
           real_health_pct = Fin 110,
           real_percentage = Fin 110,
           charging_status = ''Not Charging'', timestamp = now \<rparr>"
  by (simp add: derive_def temperature_celsius_of_def voltage_v_of_def power_watts_of_def
      wear_level_of_def real_health_pct_of_def real_percentage_of_def charging_status_of_def
      and_then_def scenario_def
      float_of_int_3650 temperature_scenario round_temperature_scenario float_of_int_12000
      voltage_scenario round_voltage_scenario power_scenario round_power_scenario
      health_quotient_above_design health_above_design wear_above_design
      round_health_above_design round_wear_above_design percentage_quotient_above_design
      del: float_mul.simps float_truediv.simps py_round.simps One_nat_def)

lemma sum_unequal:
  "float_add (Fin (8089590830664253 / 562949953421312)) (Fin (753121484561449 / 8796093022208)) = Fin (439760670645289 / 4398046511104)"
  unfolding float_add.simps
  by (rule of_exact_eval [where e = "6" and k = "7036170730324624"]) (simp_all add: pow2_eval)

lemma fl_threshold:
  "fl (10001 / 10000) = 4504049987333233 / 4503599627370496"
  by (rule fl_eval [where e = "0" and k = "4504049987333233"]) (simp_all add: pow2_eval)

lemma health_threshold:
  "float_mul (Fin (4504049987333233 / 4503599627370496)) (Fin 100) = Fin (7037578105208177 / 70368744177664)"
  unfolding float_mul.simps
  by (rule of_exact_eval [where e = "6" and k = "7037578105208177"]) (simp_all add: pow2_eval)

lemma round_health_threshold:
  "py_round (Fin (7037578105208177 / 70368744177664)) 2 = Fin (7037578105208177 / 70368744177664)"
  by (rule py_round_eval [where m = "10001" and e = "6" and k = "7037578105208177"]) (simp_all add: pow2_eval)

lemma wear_threshold:
  "float_sub (Fin 100) (Fin (7037578105208177 / 70368744177664)) = Fin (- (703687441777 / 70368744177664))"
  unfolding float_sub_def float_neg.simps float_add.simps
  by (rule of_exact_eval [where e = "- 7" and k = "- 5764607523037184"]) (simp_all add: pow2_eval)

lemma round_wear_threshold:
  "py_round (Fin (- (703687441777 / 70368744177664))) 2 = Fin (- (5764607523034235 / 576460752303423488))"
  by (rule py_round_eval [where m = "- 1" and e = "- 7" and k = "- 5764607523034235"]) (simp_all add: pow2_eval)

lemma health_unit:
  "float_mul (Fin 1) (Fin 100) = Fin 100"
  unfolding float_mul.simps
  by (rule of_exact_eval [where e = "6" and k = "7036874417766400"]) (simp_all add: pow2_eval)

lemma round_hundred:
  "py_round (Fin 100) 2 = Fin 100"
  by (rule py_round_eval [where m = "10000" and e = "6" and k = "7036874417766400"]) (simp_all add: pow2_eval)

lemma fl_7407:
  "fl (7407 / 100) = 1303053220309893 / 17592186044416"
  by (rule fl_eval [where e = "6" and k = "5212212881239572"]) (simp_all add: pow2_eval)

lemma fl_1437:
  "fl (1437 / 100) = 8089590830664253 / 562949953421312"
  by (rule fl_eval [where e = "3" and k = "8089590830664253"]) (simp_all add: pow2_eval)

lemma fl_8562:
  "fl (4281 / 50) = 753121484561449 / 8796093022208"
  by (rule fl_eval [where e = "6" and k = "6024971876491592"]) (simp_all add: pow2_eval)

section \<open>The function on well-typed documents\<close>

lemma derive_calculations:
  "derive r now = and_then (temperature_celsius_of r) (\<lambda>t. calculations t r now)"
  by (simp add: derive_def calculations_def)

text \<open>
  On a document that is read and has the types of the typed record, the function returns
  what \<open>derive\<close> gives for the typed record: the temperature computed while reading is
  the one \<open>derive\<close> computes.
\<close>

lemma calculate_typed:
  assumes "extract_raw_keys battery = Inr raw" and "well_typed raw"
  shows "calculate raw now =
    (case derive (battery_record_of raw) now of Inl e \<Rightarrow> Failure e | Inr d \<Rightarrow> Report d)"
proof -
  obtain kvs where b: "battery = PDict kvs"
    using assms(1) by (cases battery) (simp_all add: extract_raw_keys_def)
  have t: "temperature_celsius_of_value (Temperature raw) = Inr (TemperatureCelsius raw)"
    using assms(1) unfolding b
    by (auto simp add: extract_raw_keys_def and_then_def split: sum.splits)
  obtain n where n: "Temperature raw = PInt n"
    using assms(2) by (cases "Temperature raw") (simp_all add: well_typed_def)
  have "temperature_celsius_of (battery_record_of raw) = temperature_celsius_of_value (PInt n)"
    by (simp add: temperature_celsius_of_def temperature_celsius_of_value_def
        battery_record_of_def n)
  then have "temperature_celsius_of (battery_record_of raw) = Inr (TemperatureCelsius raw)"
    using t by (simp add: n)
  then show ?thesis
    using assms(2) by (simp add: calculate_def derive_calculations and_then_def)
qed

section \<open>Charging status\<close>

text \<open>
  C1. The charging status is decided by the three flags alone, in a fixed priority:
  "Fully Charged" when \<open>fully_charged\<close> holds, otherwise "Charging" when \<open>is_charging\<close>
  holds, otherwise "Not Charging" when \<open>external_connected\<close> holds, otherwise
  "Discharging". This holds for whatever values the three flags take, so for all eight
  combinations, and the status is the one the returned dictionary carries.
\<close>

theorem charging_status_priority:
  "charging_status_of (r\<lparr>fully_charged := fc, is_charging := ic, external_connected := ec\<rparr>) =
     (if fc then ''Fully Charged''
      else if ic then ''Charging''
      else if ec then ''Not Charging''
      else ''Discharging'')
   \<and> (derive r now = Inr d \<longrightarrow>
        charging_status d =
          (if fully_charged r then ''Fully Charged''
           else if is_charging r then ''Charging''
           else if external_connected r then ''Not Charging''
           else ''Discharging''))"
  by (auto simp add: charging_status_of_def derive_def and_then_def split: sum.splits)

theorem charging_status_priority_witness:
  "\<exists>d. derive scenario [] = Inr d \<and> charging_status d = ''Not Charging''"
proof -
  obtain d where d: "derive scenario [] = Inr d"
    using derive_scenario [of "[]"] by simp
  have "\<not> fully_charged scenario" "\<not> is_charging scenario" "external_connected scenario"
    by (simp_all add: scenario_def)
  with d charging_status_priority [where r = scenario and now = "[]" and d = d]
  show ?thesis by simp
qed

section \<open>The scenario of the specification\<close>

text \<open>
  C6. A record with design capacity 3000, raw maximum capacity 2700, raw current capacity
  2000, 12000 mV, -1500 mA, external power connected, not charging and not fully charged
  gives a real health of 90.0, a wear level of 10.0, a real percentage of 74.07 (the
  float nearest to it), a power of 18.0 W, a voltage of 12.0 V and the status
  "Not Charging". The result exists whenever the temperature, the one calculation the
  listed fields do not determine, can be converted.
\<close>

theorem scenario_metrics:
  assumes "design_capacity r = 3000" and "apple_raw_max_capacity r = 2700"
    and "apple_raw_current_capacity r = 2000"
    and "voltage_mv r = 12000" and "amperage_ma r = - 1500"
    and "\<not> is_charging r" and "external_connected r" and "\<not> fully_charged r"
  shows "derive r now =
           and_then (temperature_celsius_of r) (\<lambda>t.
             Inr \<lparr> source = r, voltage_v = Fin 12, power_watts = Fin 18,
                   temperature_celsius = py_round t 1,
                   wear_level_pct = Fin 10, real_health_pct = Fin 90,
                   real_percentage = Fin (fl (7407 / 100)),
                   charging_status = ''Not Charging'', timestamp = now \<rparr>)"
  by (simp add: derive_def voltage_v_of_def power_watts_of_def wear_level_of_def
      real_health_pct_of_def real_percentage_of_def charging_status_of_def and_then_def assms
      float_of_int_12000 voltage_scenario round_voltage_scenario power_scenario
      round_power_scenario health_quotient_scenario health_scenario wear_scenario
      round_health_scenario round_wear_scenario percentage_quotient_scenario
      percentage_scenario round_percentage_scenario fl_7407
      del: float_mul.simps float_truediv.simps py_round.simps One_nat_def)

theorem scenario_metrics_witness:
  "derive scenario [] =
     Inr \<lparr> source = scenario, voltage_v = Fin 12, power_watts = Fin 18,
           temperature_celsius = Fin (73 / 2),
           wear_level_pct = Fin 10, real_health_pct = Fin 90,
           real_percentage = Fin (fl (7407 / 100)),
           charging_status = ''Not Charging'', timestamp = [] \<rparr>"
  using scenario_metrics [of scenario "[]"]
  by (simp add: scenario_def temperature_celsius_of_def and_then_def float_of_int_3650
      temperature_scenario round_temperature_scenario
      del: float_truediv.simps py_round.simps One_nat_def)

section \<open>Reading the document\<close>

lemma first_adapter_watts_find:
  "first_adapter_watts xs =
     (case find is_dict xs of
        Some (PDict adapter) \<Rightarrow> dict_get adapter ''Watts'' (PInt 0)
      | _ \<Rightarrow> PInt 0)"
proof (induction xs)
  case Nil
  show ?case by simp
next
  case (Cons x xs)
  then show ?case by (cases x) simp_all
qed

lemma extract_raw_keys_dictionary:
  "extract_raw_keys (PDict kvs) = Inl e
     \<longleftrightarrow> temperature_celsius_of_value (dict_get kvs ''Temperature'' (PInt 0)) = Inl e"
  "extract_raw_keys (PDict kvs) = Inr raw \<Longrightarrow>
     Watts raw = adapter_watts_of (dict_get kvs ''AppleRawAdapterDetails'' (PList []))"
proof -
  show "extract_raw_keys (PDict kvs) = Inl e
     \<longleftrightarrow> temperature_celsius_of_value (dict_get kvs ''Temperature'' (PInt 0)) = Inl e"
    by (cases "temperature_celsius_of_value (dict_get kvs ''Temperature'' (PInt 0))")
       (simp_all add: extract_raw_keys_def and_then_def)
  show "Watts raw = adapter_watts_of (dict_get kvs ''AppleRawAdapterDetails'' (PList []))"
    if read: "extract_raw_keys (PDict kvs) = Inr raw"
  proof (cases "temperature_celsius_of_value (dict_get kvs ''Temperature'' (PInt 0))")
    case (Inl e')
    with read show ?thesis by (simp add: extract_raw_keys_def and_then_def)
  next
    case (Inr c)
    from read [symmetric] show ?thesis
      by (simp add: extract_raw_keys_def and_then_def Inr)
  qed
qed

text \<open>
  C9. The adapter wattage is the wattage of the first entry of the adapter-details list
  that is a dictionary, the entries before it being skipped; it is 0 when the value is
  absent, empty, no list, a list without a dictionary, or when that dictionary has no
  wattage key. Reading it never fails: the value is defined for every document, it is
  the wattage field of every record the extraction returns, and the extraction of a
  battery dictionary fails only earlier, on the temperature.
\<close>

theorem adapter_watts_first_dictionary:
  "adapter_watts_of adapter_details = spec_adapter_watts adapter_details
   \<and> (extract_raw_keys (PDict battery) = Inr raw \<longrightarrow>
        Watts raw =
          spec_adapter_watts
            (case map_of battery ''AppleRawAdapterDetails'' of
               None \<Rightarrow> PList [] | Some v \<Rightarrow> v))
   \<and> (extract_raw_keys (PDict battery) = Inl e \<longrightarrow>
        temperature_celsius_of_value (dict_get battery ''Temperature'' (PInt 0)) = Inl e)"
proof -
  have a: "adapter_watts_of v = spec_adapter_watts v" for v
    by (cases v)
       (auto simp add: adapter_watts_of_def spec_adapter_watts_def first_adapter_watts_find
          dict_get_def split: option.splits plist.splits)
  show ?thesis
    using extract_raw_keys_dictionary [of battery]
    by (auto simp add: a [symmetric] dict_get_def)
qed

theorem adapter_watts_first_dictionary_witness:
  "adapter_watts_of (PList [PStr ''x'', PDict [(''Watts'', PInt 96)], PDict [(''Watts'', PInt 5)]])
     = PInt 96
   \<and> (\<exists>raw. extract_raw_keys
          (PDict [(''AppleRawAdapterDetails'',
                   PList [PStr ''x'', PDict [(''Watts'', PInt 96)], PDict [(''Watts'', PInt 5)]])])
          = Inr raw \<and> Watts raw = PInt 96)"
proof -
  let ?details = "PList [PStr ''x'', PDict [(''Watts'', PInt 96)], PDict [(''Watts'', PInt 5)]]"
  let ?battery = "[(''AppleRawAdapterDetails'', ?details)]"
  have s: "spec_adapter_watts ?details = PInt 96" by (simp add: spec_adapter_watts_def)
  obtain raw where raw: "extract_raw_keys (PDict ?battery) = Inr raw"
    by (simp add: extract_raw_keys_def temperature_celsius_of_value_def dict_get_def
        and_then_def)
  from adapter_watts_first_dictionary [of ?details ?battery raw] raw s
  show ?thesis by simp
qed













section \<open>Capacity ratios\<close>

lemma derive_capacity_fields:
  assumes "derive r now = Inr d"
  shows "0 < design_capacity r \<Longrightarrow>
      \<exists>q. int_truediv (apple_raw_max_capacity r) (design_capacity r) = Inr q
        \<and> real_health_pct d = py_round (float_mul q (Fin 100)) 2
        \<and> wear_level_pct d = py_round (float_sub (Fin 100) (float_mul q (Fin 100))) 2"
    and "0 < apple_raw_max_capacity r \<Longrightarrow>
      \<exists>q. int_truediv (apple_raw_current_capacity r) (apple_raw_max_capacity r) = Inr q
        \<and> real_percentage d = py_round (float_mul q (Fin 100)) 2"
  using assms unfolding derive_def
  by (auto simp add: and_then_def wear_level_of_def real_health_pct_of_def
      real_percentage_of_def
      simp del: py_round.simps float_mul.simps One_nat_def split: sum.splits)

lemma capacity_quotient_cases:
  assumes "0 < b"
  shows "int_truediv a b = Inl OverflowError \<or> (\<exists>q. int_truediv a b = Inr (Fin q))"
  using int_truediv_cases [of b a] assms by auto

lemma health_of_quotient_finite:
  assumes "\<bar>q\<bar> \<le> pow2 64"
  shows "float_mul (Fin q) (Fin 100) = Fin (fl (q * 100)) \<and> \<bar>fl (q * 100)\<bar> \<le> pow2 71"
proof -
  have "\<bar>q * 100\<bar> = \<bar>q\<bar> * 100" by (simp add: abs_mult)
  also have "\<dots> \<le> pow2 64 * 100" using assms by simp
  also have "\<dots> \<le> pow2 71" by (simp add: pow2_def)
  finally have le: "\<bar>q * 100\<bar> \<le> pow2 71" .
  then have "of_exact (q * 100) = Fin (fl (q * 100))" by (rule of_exact_finite) simp_all
  moreover have "\<bar>fl (q * 100)\<bar> \<le> pow2 71" using le by (rule abs_fl_le_pow2) simp
  ultimately show ?thesis by simp
qed

lemma wear_of_health_finite:
  assumes "\<bar>h\<bar> \<le> pow2 71"
  shows "float_sub (Fin 100) (Fin h) = Fin (fl (100 - h))"
proof -
  have "\<bar>100 - h\<bar> \<le> 100 + \<bar>h\<bar>" by simp
  also have "\<dots> \<le> 100 + pow2 71" using assms by simp
  also have "\<dots> \<le> pow2 72" by (simp add: pow2_def)
  finally have "\<bar>100 - h\<bar> \<le> pow2 72" .
  then have "of_exact (100 - h) = Fin (fl (100 - h))" by (rule of_exact_finite) simp_all
  then show ?thesis by (simp add: float_sub_Fin)
qed

lemma float_sub_not_NaN: "float_sub (Fin c) (of_exact x) \<noteq> NaN"
  by (simp add: float_sub_def of_exact_def Let_def of_exact_not_NaN [unfolded of_exact_def Let_def])

text \<open>
  C2, as the code has it. A design capacity of zero or less gives a wear level and a real
  health of exactly 0.0, and a raw maximum capacity of zero or less gives a real
  percentage of exactly 0.0, before and after the rounding. For every record, none of the
  three ratios raises a division by zero and none is NaN. For capacities of a magnitude
  up to \<open>2 ^ 64\<close> the three ratios are finite floats, produced without any failure.
\<close>

theorem degenerate_denominators_give_zero:
  "(design_capacity r \<le> 0 \<longrightarrow>
      wear_level_of r = Inr (Fin 0) \<and> real_health_pct_of r = Inr (Fin 0))
   \<and> (apple_raw_max_capacity r \<le> 0 \<longrightarrow> real_percentage_of r = Inr (Fin 0))
   \<and> (derive r now = Inr d \<longrightarrow>
        (design_capacity r \<le> 0 \<longrightarrow> wear_level_pct d = Fin 0 \<and> real_health_pct d = Fin 0)
        \<and> (apple_raw_max_capacity r \<le> 0 \<longrightarrow> real_percentage d = Fin 0))
   \<and> wear_level_of r \<noteq> Inl ZeroDivisionError \<and> wear_level_of r \<noteq> Inr NaN
   \<and> real_health_pct_of r \<noteq> Inl ZeroDivisionError \<and> real_health_pct_of r \<noteq> Inr NaN
   \<and> real_percentage_of r \<noteq> Inl ZeroDivisionError \<and> real_percentage_of r \<noteq> Inr NaN
   \<and> (\<bar>apple_raw_max_capacity r\<bar> \<le> 2 ^ 64 \<longrightarrow>
        (\<exists>w h. wear_level_of r = Inr (Fin w) \<and> real_health_pct_of r = Inr (Fin h)))
   \<and> (\<bar>apple_raw_current_capacity r\<bar> \<le> 2 ^ 64 \<longrightarrow>
        (\<exists>p. real_percentage_of r = Inr (Fin p)))"
proof -
  have zero: "design_capacity r \<le> 0 \<Longrightarrow>
      wear_level_of r = Inr (Fin 0) \<and> real_health_pct_of r = Inr (Fin 0)"
    and zero': "apple_raw_max_capacity r \<le> 0 \<Longrightarrow> real_percentage_of r = Inr (Fin 0)"
    by (simp_all add: wear_level_of_def real_health_pct_of_def real_percentage_of_def)
  have rounded: "derive r now = Inr d \<Longrightarrow>
      (design_capacity r \<le> 0 \<longrightarrow> wear_level_pct d = Fin 0 \<and> real_health_pct d = Fin 0)
      \<and> (apple_raw_max_capacity r \<le> 0 \<longrightarrow> real_percentage d = Fin 0)"
    using zero zero'
    by (auto simp add: derive_def and_then_def py_round_zero
        simp del: py_round.simps split: sum.splits)
  have quot: "0 < b \<Longrightarrow>
      and_then (int_truediv a b) (\<lambda>q. Inr (float_mul q (Fin 100))) \<noteq> Inl ZeroDivisionError
      \<and> and_then (int_truediv a b) (\<lambda>q. Inr (float_mul q (Fin 100))) \<noteq> Inr NaN
      \<and> and_then (int_truediv a b) (\<lambda>q. Inr (float_sub (Fin 100) (float_mul q (Fin 100))))
          \<noteq> Inl ZeroDivisionError
      \<and> and_then (int_truediv a b) (\<lambda>q. Inr (float_sub (Fin 100) (float_mul q (Fin 100))))
          \<noteq> Inr NaN" for a b
    using capacity_quotient_cases [of b a]
    by (auto simp add: and_then_def of_exact_not_NaN float_sub_not_NaN)
  have never: "wear_level_of r \<noteq> Inl ZeroDivisionError \<and> wear_level_of r \<noteq> Inr NaN
      \<and> real_health_pct_of r \<noteq> Inl ZeroDivisionError \<and> real_health_pct_of r \<noteq> Inr NaN
      \<and> real_percentage_of r \<noteq> Inl ZeroDivisionError \<and> real_percentage_of r \<noteq> Inr NaN"
    using quot [of "design_capacity r" "apple_raw_max_capacity r"]
      quot [of "apple_raw_max_capacity r" "apple_raw_current_capacity r"]
    by (simp add: wear_level_of_def real_health_pct_of_def real_percentage_of_def)
  have fin: "0 < b \<Longrightarrow> \<bar>a\<bar> \<le> 2 ^ 64 \<Longrightarrow>
      (\<exists>h. and_then (int_truediv a b) (\<lambda>q. Inr (float_mul q (Fin 100))) = Inr (Fin h))
      \<and> (\<exists>w. and_then (int_truediv a b)
                   (\<lambda>q. Inr (float_sub (Fin 100) (float_mul q (Fin 100)))) = Inr (Fin w))"
    for a b
  proof -
    assume "0 < b" and "\<bar>a\<bar> \<le> 2 ^ 64"
    then have q: "int_truediv a b = Inr (Fin (fl (of_int a / of_int b)))"
      and b: "\<bar>fl (of_int a / of_int b)\<bar> \<le> pow2 64"
      using int_truediv_bounded [of b a 64] by simp_all
    note h = health_of_quotient_finite [OF b]
    note w = wear_of_health_finite [of "fl (fl (of_int a / of_int b) * 100)"]
    show ?thesis
      using h w by (simp add: q and_then_def del: float_mul.simps)
  qed
  have finite: "\<bar>apple_raw_max_capacity r\<bar> \<le> 2 ^ 64 \<Longrightarrow>
      \<exists>w h. wear_level_of r = Inr (Fin w) \<and> real_health_pct_of r = Inr (Fin h)"
    using fin [of "design_capacity r" "apple_raw_max_capacity r"]
    by (cases "0 < design_capacity r") (auto simp add: wear_level_of_def real_health_pct_of_def)
  have finite': "\<bar>apple_raw_current_capacity r\<bar> \<le> 2 ^ 64 \<Longrightarrow>
      \<exists>p. real_percentage_of r = Inr (Fin p)"
    using fin [of "apple_raw_max_capacity r" "apple_raw_current_capacity r"]
    by (cases "0 < apple_raw_max_capacity r") (auto simp add: real_percentage_of_def)
  show ?thesis
    using zero zero' rounded never finite finite' by blast
qed

theorem degenerate_denominators_give_zero_witness:
  "wear_level_of (scenario\<lparr>apple_raw_max_capacity := 0, design_capacity := 0\<rparr>) = Inr (Fin 0)
   \<and> real_health_pct_of (scenario\<lparr>apple_raw_max_capacity := 0, design_capacity := 0\<rparr>)
       = Inr (Fin 0)
   \<and> real_percentage_of (scenario\<lparr>apple_raw_max_capacity := 0, design_capacity := 0\<rparr>)
       = Inr (Fin 0)
   \<and> (\<exists>d. derive (scenario\<lparr>apple_raw_max_capacity := 0, design_capacity := 0\<rparr>) [] = Inr d
         \<and> wear_level_pct d = Fin 0 \<and> real_health_pct d = Fin 0 \<and> real_percentage d = Fin 0)"
proof -
  let ?r = "scenario\<lparr>apple_raw_max_capacity := 0, design_capacity := 0\<rparr>"
  obtain d where d: "derive ?r [] = Inr d"
    using derive_degenerate [of "[]"] by simp
  have "design_capacity ?r \<le> 0" and "apple_raw_max_capacity ?r \<le> 0"
    by (simp_all add: scenario_def)
  with d degenerate_denominators_give_zero [of ?r "[]" d] show ?thesis by blast
qed

text \<open>
  As the specification words it, the claim excludes every infinity. Python's integers
  are unbounded: a raw maximum capacity of \<open>10 ^ 307\<close> on a design capacity of 1 has a
  finite quotient whose product with 100.0 is infinite, and the record carries an
  infinite health and an infinite wear level.
\<close>

theorem infinite_health_counterexample:
  "map_sum id real_health_pct
     (derive (scenario\<lparr>apple_raw_max_capacity := 10 ^ 307, design_capacity := 1\<rparr>) [])
     = Inr PInf
   \<and> map_sum id wear_level_pct
     (derive (scenario\<lparr>apple_raw_max_capacity := 10 ^ 307, design_capacity := 1\<rparr>) [])
     = Inr NInf"
  using derive_huge [of "[]"] by simp

section \<open>Power\<close>

lemma power_watts_of_value:
  assumes "power_watts_of r = Inr p"
  shows "p = Fin (fl (of_int (voltage_mv r) * \<bar>of_int (amperage_ma r)\<bar> / 1000000))"
proof (cases "voltage_mv r \<noteq> 0 \<and> amperage_ma r \<noteq> 0")
  case True
  then have "int_truediv (voltage_mv r * \<bar>amperage_ma r\<bar>) 1000000 = Inr p"
    using assms by (simp add: power_watts_of_def)
  then show ?thesis
    using int_truediv_cases [of 1000000 "voltage_mv r * \<bar>amperage_ma r\<bar>"] by auto
next
  case False
  then have "p = Fin 0" using assms by (auto simp add: power_watts_of_def)
  moreover have x: "of_int (voltage_mv r) * \<bar>of_int (amperage_ma r)\<bar> / 1000000 = (0::rat)"
    using False by auto
  ultimately show ?thesis unfolding x by (simp only: fl_zero)
qed

lemma py_round_sign:
  "0 \<le> x \<Longrightarrow> float_le (Fin 0) (py_round (Fin (fl x)) n)"
  "x \<le> 0 \<Longrightarrow> float_le (py_round (Fin (fl x)) n) (Fin 0)"
proof -
  show "float_le (Fin 0) (py_round (Fin (fl x)) n)" if "0 \<le> x"
  proof -
    have "float_le (Fin 0) (Fin (fl x))" using fl_nonneg [OF that] by simp
    then have "float_le (py_round (Fin 0) n) (py_round (Fin (fl x)) n)" by (rule py_round_mono)
    then show ?thesis by (simp only: py_round_zero)
  qed
  show "float_le (py_round (Fin (fl x)) n) (Fin 0)" if "x \<le> 0"
  proof -
    have "fl x \<le> fl 0" using that by (rule fl_mono)
    then have "float_le (Fin (fl x)) (Fin 0)" by (simp add: fl_zero)
    then have "float_le (py_round (Fin (fl x)) n) (py_round (Fin 0) n)" by (rule py_round_mono)
    then show ?thesis by (simp only: py_round_zero)
  qed
qed

text \<open>
  C3, as the code has it. The power is the product of the voltage and the magnitude of
  the amperage, divided by 1,000,000 and rounded to the nearest float (0 when either is
  zero, which is the same value), and the record carries it rounded to two places. The
  absolute value is taken of the amperage alone: the power is never negative when the
  voltage is not negative, and never positive when the voltage is not positive.
\<close>

theorem power_of_voltage_and_absolute_amperage:
  "(power_watts_of r = Inr p \<longrightarrow>
      p = Fin (fl (of_int (voltage_mv r) * \<bar>of_int (amperage_ma r)\<bar> / 1000000)))
   \<and> (derive r now = Inr d \<longrightarrow>
        (\<exists>p. power_watts_of r = Inr p \<and> power_watts d = py_round p 2)
        \<and> (0 \<le> voltage_mv r \<longrightarrow> float_le (Fin 0) (power_watts d))
        \<and> (voltage_mv r \<le> 0 \<longrightarrow> float_le (power_watts d) (Fin 0)))"
proof -
  have rounded: "\<exists>p. power_watts_of r = Inr p \<and> power_watts d = py_round p 2"
    if "derive r now = Inr d"
    using that by (auto simp add: derive_def and_then_def simp del: py_round.simps split: sum.splits)
  have sign: "(0 \<le> voltage_mv r \<longrightarrow> float_le (Fin 0) (power_watts d))
      \<and> (voltage_mv r \<le> 0 \<longrightarrow> float_le (power_watts d) (Fin 0))"
    if derived: "derive r now = Inr d"
  proof -
    let ?x = "of_int (voltage_mv r) * \<bar>of_int (amperage_ma r)\<bar> / (1000000 :: rat)"
    obtain p where p: "power_watts_of r = Inr p" "power_watts d = py_round p 2"
      using rounded [OF derived] by blast
    have d: "power_watts d = py_round (Fin (fl ?x)) 2"
      using power_watts_of_value [OF p(1)] p(2) by simp
    have "0 \<le> voltage_mv r \<Longrightarrow> 0 \<le> ?x" by simp
    moreover have "voltage_mv r \<le> 0 \<Longrightarrow> ?x \<le> 0"
      by (simp add: mult_nonpos_nonneg divide_nonpos_nonneg)
    ultimately show ?thesis
      unfolding d using py_round_sign [of ?x 2] by blast
  qed
  show ?thesis using power_watts_of_value rounded sign by blast
qed

theorem power_of_voltage_and_absolute_amperage_witness:
  "power_watts_of scenario = Inr (Fin 18)
   \<and> (18 :: rat) = fl (12000 * \<bar>- 1500\<bar> / 1000000)
   \<and> (\<exists>d. derive scenario [] = Inr d \<and> power_watts d = py_round (Fin 18) 2
         \<and> float_le (Fin 0) (power_watts d))"
proof -
  have p: "power_watts_of scenario = Inr (Fin 18)"
    by (simp add: power_watts_of_def scenario_def power_scenario)
  obtain d where d: "derive scenario [] = Inr d"
    using derive_scenario [of "[]"] by simp
  have v: "voltage_mv scenario = 12000" "amperage_ma scenario = - 1500"
    by (simp_all add: scenario_def)
  show ?thesis
    using power_of_voltage_and_absolute_amperage [of scenario "Fin 18" "[]" d] p d v
    by auto
qed

text \<open>
  As the specification words it, with the absolute value of the whole product, the claim
  fails for a negative voltage: -12000 mV at 1500 mA give -18.0 W.
\<close>

theorem negative_power_counterexample:
  "map_sum id power_watts
     (derive (scenario\<lparr>voltage_mv := - 12000, amperage_ma := 1500\<rparr>) []) = Inr (Fin (- 18))
   \<and> \<not> float_le (Fin 0) (Fin (- 18))
   \<and> (- 18 :: rat) \<noteq> \<bar>(- 12000) * 1500\<bar> / 1000000"
  using derive_negative_voltage [of "[]"] by simp

section \<open>Health and wear\<close>

lemma rounded_sum_near_hundred:
  assumes "\<bar>h\<bar> \<le> pow2 39"
  shows "\<bar>round_half_even (h * 100) + round_half_even (fl (100 - h) * 100) - 10000\<bar> \<le> 1"
proof -
  let ?w = "fl (100 - h)"
  let ?k1 = "round_half_even (h * 100)"
  let ?k2 = "round_half_even (?w * 100)"
  have "\<bar>100 - h\<bar> \<le> 100 + \<bar>h\<bar>" by simp
  also have "\<dots> \<le> 100 + pow2 39" using assms by simp
  also have "\<dots> < pow2 40" by (simp add: pow2_def)
  finally have "\<bar>?w - (100 - h)\<bar> \<le> pow2 (40 - 54)" by (rule fl_error_below) simp
  then have e: "\<bar>?w - (100 - h)\<bar> \<le> 1 / 16384" by (simp add: pow2_def)
  have a: "\<bar>of_int ?k1 - h * 100\<bar> \<le> 1 / 2"
    using rhe_lower [of "h * 100"] rhe_upper [of "h * 100"] by linarith
  have b: "\<bar>of_int ?k2 - ?w * 100\<bar> \<le> 1 / 2"
    using rhe_lower [of "?w * 100"] rhe_upper [of "?w * 100"] by linarith
  have "(of_int (?k1 + ?k2 - 10000) :: rat)
      = (of_int ?k1 - h * 100) + (of_int ?k2 - ?w * 100) + 100 * (?w - (100 - h))"
    by simp
  then have "\<bar>(of_int (?k1 + ?k2 - 10000) :: rat)\<bar> < 2"
    using a b e by linarith
  then have "\<bar>?k1 + ?k2 - 10000\<bar> < 2"
    by (metis of_int_abs of_int_less_iff of_int_numeral)
  then show ?thesis by simp
qed

text \<open>
  C7, as the code has it. For a positive design capacity the two expressions evaluate the
  same quotient, and the wear level is the float difference of 100.0 and the real health
  before the rounding. The record carries each of the two rounded to two places on its
  own: for capacities of a magnitude up to \<open>2 ^ 32\<close> they are the floats nearest to
  two decimals whose sum is 99.99, 100.00 or 100.01, and not always 100.
\<close>

theorem wear_is_hundred_minus_health:
  assumes "0 < design_capacity r"
  shows "wear_level_of r = and_then (real_health_pct_of r) (\<lambda>h. Inr (float_sub (Fin 100) h))
     \<and> (derive r now = Inr d \<longrightarrow>
          (\<exists>h. real_health_pct_of r = Inr h \<and> real_health_pct d = py_round h 2
             \<and> wear_level_pct d = py_round (float_sub (Fin 100) h) 2))
     \<and> (derive r now = Inr d \<and> \<bar>apple_raw_max_capacity r\<bar> \<le> 2 ^ 32 \<longrightarrow>
          (\<exists>k1 k2 :: int. real_health_pct d = Fin (fl (of_int k1 / 100))
             \<and> wear_level_pct d = Fin (fl (of_int k2 / 100))
             \<and> \<bar>k1 + k2 - 10000\<bar> \<le> 1))"
proof -
  have w: "wear_level_of r = and_then (real_health_pct_of r) (\<lambda>h. Inr (float_sub (Fin 100) h))"
    using assms by (simp add: wear_level_of_def real_health_pct_of_def and_then_def split: sum.splits)
  have fields: "\<exists>h. real_health_pct_of r = Inr h \<and> real_health_pct d = py_round h 2
             \<and> wear_level_pct d = py_round (float_sub (Fin 100) h) 2"
    if "derive r now = Inr d"
    using that unfolding derive_def w
    by (auto simp add: and_then_def simp del: py_round.simps split: sum.splits)
  have near: "\<exists>k1 k2 :: int. real_health_pct d = Fin (fl (of_int k1 / 100))
             \<and> wear_level_pct d = Fin (fl (of_int k2 / 100))
             \<and> \<bar>k1 + k2 - 10000\<bar> \<le> 1"
    if derived: "derive r now = Inr d" and small: "\<bar>apple_raw_max_capacity r\<bar> \<le> 2 ^ 32"
  proof -
    let ?q = "fl (of_int (apple_raw_max_capacity r) / of_int (design_capacity r))"
    let ?h = "fl (?q * 100)"
    have q: "int_truediv (apple_raw_max_capacity r) (design_capacity r) = Inr (Fin ?q)"
      and qb: "\<bar>?q\<bar> \<le> pow2 32"
      using int_truediv_bounded [OF assms small] by simp_all
    have "\<bar>?q * 100\<bar> = \<bar>?q\<bar> * 100" by (simp add: abs_mult)
    also have "\<dots> \<le> pow2 32 * 100" using qb by simp
    also have "\<dots> \<le> pow2 39" by (simp add: pow2_def)
    finally have le: "\<bar>?q * 100\<bar> \<le> pow2 39" .
    then have h: "float_mul (Fin ?q) (Fin 100) = Fin ?h"
      using of_exact_finite [of "?q * 100" 39] by simp
    have hb: "\<bar>?h\<bar> \<le> pow2 39" using le by (rule abs_fl_le_pow2) simp
    have "\<bar>100 - ?h\<bar> \<le> 100 + \<bar>?h\<bar>" by simp
    also have "\<dots> \<le> 100 + pow2 39" using hb by simp
    also have "\<dots> \<le> pow2 40" by (simp add: pow2_def)
    finally have s: "float_sub (Fin 100) (Fin ?h) = Fin (fl (100 - ?h))"
      using of_exact_finite [of "100 - ?h" 40] by (simp add: float_sub_Fin)
    have "real_health_pct d = py_round (Fin ?h) 2"
      and "wear_level_pct d = py_round (Fin (fl (100 - ?h))) 2"
      using derive_capacity_fields(1) [OF derived assms] q h s by auto
    then have "real_health_pct d = Fin (fl (of_int (round_half_even (?h * 100)) / 100))"
      and "wear_level_pct d = Fin (fl (of_int (round_half_even (fl (100 - ?h) * 100)) / 100))"
      by simp_all
    with rounded_sum_near_hundred [OF hb] show ?thesis by blast
  qed
  from w fields near show ?thesis by blast
qed

theorem wear_is_hundred_minus_health_witness:
  "real_health_pct_of scenario = Inr (Fin 90) \<and> wear_level_of scenario = Inr (Fin 10)
   \<and> float_sub (Fin 100) (Fin 90) = Fin 10
   \<and> (\<exists>d k1 k2. derive scenario [] = Inr d
         \<and> real_health_pct d = Fin (fl (of_int k1 / 100))
         \<and> wear_level_pct d = Fin (fl (of_int k2 / 100)) \<and> \<bar>k1 + k2 - 10000\<bar> \<le> 1)"
proof -
  have pos: "0 < design_capacity scenario"
    and small: "\<bar>apple_raw_max_capacity scenario\<bar> \<le> 2 ^ 32"
    by (simp_all add: scenario_def)
  have h: "real_health_pct_of scenario = Inr (Fin 90)"
    by (simp add: real_health_pct_of_def scenario_def and_then_def health_quotient_scenario
        health_scenario del: float_mul.simps)
  obtain d where d: "derive scenario [] = Inr d"
    using derive_scenario [of "[]"] by simp
  note t = wear_is_hundred_minus_health [OF pos, of "[]" d]
  have "wear_level_of scenario = Inr (Fin 10)"
    using t h wear_scenario by (simp add: and_then_def)
  moreover have "\<exists>k1 k2. real_health_pct d = Fin (fl (of_int k1 / 100))
         \<and> wear_level_pct d = Fin (fl (of_int k2 / 100)) \<and> \<bar>k1 + k2 - 10000\<bar> \<le> 1"
    using t d small by blast
  ultimately show ?thesis using h d wear_scenario by blast
qed

text \<open>
  As the specification words it, the claim fails after the rounding: a raw maximum
  capacity of 23 on a design capacity of 160 gives a real health of 14.37 and a wear
  level of 85.62, which add up to 99.99, exactly and as floats.
\<close>

theorem health_plus_wear_counterexample:
  "map_sum id real_health_pct
     (derive (scenario\<lparr>apple_raw_max_capacity := 23, design_capacity := 160\<rparr>) [])
     = Inr (Fin (fl (1437 / 100)))
   \<and> map_sum id wear_level_pct
     (derive (scenario\<lparr>apple_raw_max_capacity := 23, design_capacity := 160\<rparr>) [])
     = Inr (Fin (fl (8562 / 100)))
   \<and> fl (1437 / 100) + fl (8562 / 100) \<noteq> 100
   \<and> float_add (Fin (fl (1437 / 100))) (Fin (fl (8562 / 100))) \<noteq> Fin 100"
  using derive_unequal [of "[]"] by (simp add: fl_1437 fl_8562 sum_unequal del: float_add.simps)

section \<open>Rounding\<close>

lemma rhe_nearest:
  "\<bar>x - of_int (round_half_even x)\<bar> \<le> 1 / 2
   \<and> (\<bar>x - of_int (round_half_even x)\<bar> = 1 / 2 \<longrightarrow> even (round_half_even x))"
proof -
  have f: "of_int \<lfloor>x\<rfloor> \<le> x" "x < of_int \<lfloor>x\<rfloor> + 1" by linarith+
  show ?thesis
    unfolding round_half_even_def Let_def using f
    by (auto simp add: abs_if; linarith)
qed

lemma py_round_nearest: "nearest_decimal n u (py_round u n)"
proof (cases u)
  case (Fin x)
  show ?thesis
    unfolding Fin nearest_decimal_def py_round.simps pyfloat.case
    using rhe_nearest [of "x * 10 ^ n"] by blast
qed (simp_all add: nearest_decimal_def)

lemma nearest_decimal_py_round:
  assumes "nearest_decimal n u e"
  shows "e = py_round u n"
proof (cases u)
  case (Fin x)
  with assms obtain k :: int where k: "\<bar>x * 10 ^ n - of_int k\<bar> \<le> 1 / 2"
    "\<bar>x * 10 ^ n - of_int k\<bar> = 1 / 2 \<longrightarrow> even k" "e = Fin (fl (of_int k / 10 ^ n))"
    by (auto simp add: nearest_decimal_def)
  have "\<bar>x * 10 ^ n - of_int k\<bar> < 1 / 2 \<or> (\<bar>x * 10 ^ n - of_int k\<bar> = 1 / 2 \<and> even k)"
    using k(1,2) by linarith
  then have "round_half_even (x * 10 ^ n) = k" by (rule rhe_eval)
  then show ?thesis by (simp add: Fin k(3))
qed (use assms in \<open>simp_all add: nearest_decimal_def\<close>)

text \<open>
  C8. Each ratio-based entry of the returned dictionary is the one rounding of the
  unrounded value of its calculation, made where the dictionary is built: the float
  nearest to the decimal with two places, one place for the temperature, that is nearest
  to the unrounded value, a tie going to the even last digit. The unrounded value
  determines the entry.
\<close>

theorem rounded_at_construction:
  assumes "derive r now = Inr d"
  shows "(\<exists>t v p w h q.
        temperature_celsius_of r = Inr t \<and> voltage_v_of r = Inr v \<and> power_watts_of r = Inr p
        \<and> wear_level_of r = Inr w \<and> real_health_pct_of r = Inr h
        \<and> real_percentage_of r = Inr q
        \<and> nearest_decimal 2 h (real_health_pct d) \<and> nearest_decimal 2 w (wear_level_pct d)
        \<and> nearest_decimal 2 q (real_percentage d)
        \<and> nearest_decimal 1 t (temperature_celsius d)
        \<and> nearest_decimal 2 v (voltage_v d) \<and> nearest_decimal 2 p (power_watts d))
     \<and> (\<forall>n u e e'. nearest_decimal n u e \<and> nearest_decimal n u e' \<longrightarrow> e = e')"
proof -
  have "\<exists>t v p w h q.
        temperature_celsius_of r = Inr t \<and> voltage_v_of r = Inr v \<and> power_watts_of r = Inr p
        \<and> wear_level_of r = Inr w \<and> real_health_pct_of r = Inr h
        \<and> real_percentage_of r = Inr q
        \<and> nearest_decimal 2 h (real_health_pct d) \<and> nearest_decimal 2 w (wear_level_pct d)
        \<and> nearest_decimal 2 q (real_percentage d)
        \<and> nearest_decimal 1 t (temperature_celsius d)
        \<and> nearest_decimal 2 v (voltage_v d) \<and> nearest_decimal 2 p (power_watts d)"
    using assms unfolding derive_def
    by (auto simp add: and_then_def py_round_nearest
        simp del: py_round.simps One_nat_def split: sum.splits)
  moreover have "\<forall>n u e e'. nearest_decimal n u e \<and> nearest_decimal n u e' \<longrightarrow> e = e'"
    using nearest_decimal_py_round by blast
  ultimately show ?thesis by blast
qed

text \<open>
  On a record whose six unrounded values all have more places: 14.374999999999998 is
  entered as 14.37, the tie 85.625 as 85.62, 8695.652173913044 as 8695.65, 36.57 as 36.6,
  12.345 as 12.35 and 18.5175 as 18.52.
\<close>

theorem rounded_at_construction_witness:
  "\<exists>d. derive (scenario\<lparr>apple_raw_max_capacity := 23, design_capacity := 160,
                         voltage_mv := 12345, temperature_raw := 3657\<rparr>) [] = Inr d
     \<and> nearest_decimal 2 (Fin (8092405580431359 / 562949953421312)) (real_health_pct d)
     \<and> real_health_pct d = Fin (fl (1437 / 100))
     \<and> nearest_decimal 2 (Fin (685 / 8)) (wear_level_pct d)
     \<and> wear_level_pct d = Fin (fl (8562 / 100))
     \<and> nearest_decimal 2 (Fin (2390242669078261 / 274877906944)) (real_percentage d)
     \<and> real_percentage d = Fin (fl (869565 / 100))
     \<and> nearest_decimal 1 (Fin (5146769949154345 / 140737488355328)) (temperature_celsius d)
     \<and> temperature_celsius d = Fin (fl (366 / 10))
     \<and> nearest_decimal 2 (Fin (6949617174986097 / 562949953421312)) (voltage_v d)
     \<and> voltage_v d = Fin (fl (1235 / 100))
     \<and> nearest_decimal 2 (Fin (1303053220309893 / 70368744177664)) (power_watts d)
     \<and> power_watts d = Fin (fl (1852 / 100))"
proof -
  let ?r = "scenario\<lparr>apple_raw_max_capacity := 23, design_capacity := 160,
                      voltage_mv := 12345, temperature_raw := 3657\<rparr>"
  obtain d where d: "derive ?r [] = Inr d"
    using derive_rounding [of "[]"] by simp
  have u: "temperature_celsius_of ?r = Inr (Fin (5146769949154345 / 140737488355328))"
    "voltage_v_of ?r = Inr (Fin (6949617174986097 / 562949953421312))"
    "power_watts_of ?r = Inr (Fin (1303053220309893 / 70368744177664))"
    "wear_level_of ?r = Inr (Fin (685 / 8))"
    "real_health_pct_of ?r = Inr (Fin (8092405580431359 / 562949953421312))"
    "real_percentage_of ?r = Inr (Fin (2390242669078261 / 274877906944))"
    by (simp_all add: temperature_celsius_of_def voltage_v_of_def power_watts_of_def
        wear_level_of_def real_health_pct_of_def real_percentage_of_def scenario_def
        and_then_def float_of_int_3657 temperature_rounding float_of_int_12345
        voltage_rounding power_rounding health_quotient_unequal health_unequal wear_unequal
        percentage_quotient_unequal percentage_unequal
        del: float_mul.simps float_truediv.simps)
  from rounded_at_construction [OF d] u
  have n: "nearest_decimal 2 (Fin (8092405580431359 / 562949953421312)) (real_health_pct d)"
    "nearest_decimal 2 (Fin (685 / 8)) (wear_level_pct d)"
    "nearest_decimal 2 (Fin (2390242669078261 / 274877906944)) (real_percentage d)"
    "nearest_decimal 1 (Fin (5146769949154345 / 140737488355328)) (temperature_celsius d)"
    "nearest_decimal 2 (Fin (6949617174986097 / 562949953421312)) (voltage_v d)"
    "nearest_decimal 2 (Fin (1303053220309893 / 70368744177664)) (power_watts d)"
    by auto
  have "real_health_pct d = Fin (fl (1437 / 100))" "wear_level_pct d = Fin (fl (8562 / 100))"
    "real_percentage d = Fin (fl (869565 / 100))" "temperature_celsius d = Fin (fl (366 / 10))"
    "voltage_v d = Fin (fl (1235 / 100))" "power_watts d = Fin (fl (1852 / 100))"
    using n [THEN nearest_decimal_py_round]
    by (simp_all add: round_health_unequal round_wear_unequal round_percentage_unequal
        round_temperature_rounding round_voltage_rounding round_power_rounding
        fl_1437 fl_8562 fl_869565 fl_366 fl_1235 fl_1852 del: py_round.simps One_nat_def)
  with d n show ?thesis by blast
qed

section \<open>Ratios above one\<close>

lemma fl_one: "fl 1 = 1"
  using fl_pow2 [of 0] by (simp add: pow2_0)

lemma of_exact_zero: "of_exact 0 = Fin 0"
  by (simp add: of_exact_def fl_zero overflows_def pow2_def)

lemma float_sub_hundred: "float_sub (Fin 100) (Fin 100) = Fin 0"
  by (simp add: float_sub_Fin of_exact_zero)

lemma quotient_above_one:
  assumes "0 < b" and "b < a" and "int_truediv a b = Inr q"
  shows "float_le (Fin 100) (py_round (float_mul q (Fin 100)) 2)"
    and "float_le (py_round (float_sub (Fin 100) (float_mul q (Fin 100))) 2) (Fin 0)"
proof -
  have q: "q = Fin (fl (of_int a / of_int b))"
    using int_truediv_cases [of b a] assms(1,3) by auto
  have "(1::rat) \<le> of_int a / of_int b" using assms(1,2) by (simp add: pos_le_divide_eq)
  then have "fl 1 \<le> fl (of_int a / of_int b)" by (rule fl_mono)
  then have one: "1 \<le> fl (of_int a / of_int b)" by (simp only: fl_one)
  have "float_le (float_mul (Fin 1) (Fin 100)) (float_mul q (Fin 100))"
    unfolding q using one by (intro float_mul_mono_right) simp_all
  then have h: "float_le (Fin 100) (float_mul q (Fin 100))" by (simp only: health_unit)
  from py_round_mono [OF h, of 2]
  show "float_le (Fin 100) (py_round (float_mul q (Fin 100)) 2)"
    by (simp only: round_hundred)
  have "float_le (float_sub (Fin 100) (float_mul q (Fin 100))) (float_sub (Fin 100) (Fin 100))"
    using h by (rule float_sub_anti_right)
  then have "float_le (float_sub (Fin 100) (float_mul q (Fin 100))) (Fin 0)"
    by (simp only: float_sub_hundred)
  from py_round_mono [OF this, of 2]
  show "float_le (py_round (float_sub (Fin 100) (float_mul q (Fin 100))) 2) (Fin 0)"
    by (simp only: py_round_zero)
qed

lemma quotient_well_above_one:
  assumes "0 < b" and "10001 * b \<le> 10000 * a" and "int_truediv a b = Inr q"
  shows "float_lt (Fin 100) (py_round (float_mul q (Fin 100)) 2)"
    and "float_lt (py_round (float_sub (Fin 100) (float_mul q (Fin 100))) 2) (Fin 0)"
proof -
  have q: "q = Fin (fl (of_int a / of_int b))"
    using int_truediv_cases [of b a] assms(1,3) by auto
  have "(of_int (10001 * b) :: rat) \<le> of_int (10000 * a)"
    using assms(2) by (simp only: of_int_le_iff)
  then have "(10001 / 10000 :: rat) \<le> of_int a / of_int b"
    using assms(1) by (simp add: field_simps)
  then have "fl (10001 / 10000) \<le> fl (of_int a / of_int b)" by (rule fl_mono)
  then have c: "4504049987333233 / 4503599627370496 \<le> fl (of_int a / of_int b)"
    by (simp only: fl_threshold)
  have "float_le (float_mul (Fin (4504049987333233 / 4503599627370496)) (Fin 100))
      (float_mul q (Fin 100))"
    unfolding q using c by (intro float_mul_mono_right) simp_all
  then have h: "float_le (Fin (7037578105208177 / 70368744177664)) (float_mul q (Fin 100))"
    by (simp only: health_threshold)
  from py_round_mono [OF h, of 2]
  have "float_le (Fin (7037578105208177 / 70368744177664)) (py_round (float_mul q (Fin 100)) 2)"
    by (simp only: round_health_threshold)
  moreover have "float_lt (Fin 100) (Fin (7037578105208177 / 70368744177664))" by simp
  ultimately show "float_lt (Fin 100) (py_round (float_mul q (Fin 100)) 2)"
    using float_lt_le_trans by blast
  have "float_le (float_sub (Fin 100) (float_mul q (Fin 100)))
      (float_sub (Fin 100) (Fin (7037578105208177 / 70368744177664)))"
    using h by (rule float_sub_anti_right)
  from py_round_mono [OF this, of 2]
  have "float_le (py_round (float_sub (Fin 100) (float_mul q (Fin 100))) 2)
      (Fin (- (5764607523034235 / 576460752303423488)))"
    by (simp only: wear_threshold round_wear_threshold)
  moreover have "float_lt (Fin (- (5764607523034235 / 576460752303423488))) (Fin 0)" by simp
  ultimately show "float_lt (py_round (float_sub (Fin 100) (float_mul q (Fin 100))) 2) (Fin 0)"
    using float_le_lt_trans by blast
qed

text \<open>
  C10, as the code has it. Nothing clamps the percentages to the range from 0 to 100. A
  raw maximum capacity above a positive design capacity gives a real health of at least
  100 and a wear level of at most 0, and a raw current capacity above a positive raw
  maximum capacity gives a real percentage of at least 100; the values are beyond 100 and
  below 0 as soon as the surplus is one part in ten thousand, while a smaller surplus
  can round to exactly 100.0 and 0.0.
\<close>

theorem percentages_not_clamped:
  assumes "derive r now = Inr d"
  shows "(0 < design_capacity r \<and> design_capacity r < apple_raw_max_capacity r \<longrightarrow>
        float_le (Fin 100) (real_health_pct d) \<and> float_le (wear_level_pct d) (Fin 0))
     \<and> (0 < design_capacity r
          \<and> 10001 * design_capacity r \<le> 10000 * apple_raw_max_capacity r \<longrightarrow>
        float_lt (Fin 100) (real_health_pct d) \<and> float_lt (wear_level_pct d) (Fin 0))
     \<and> (0 < apple_raw_max_capacity r
          \<and> apple_raw_max_capacity r < apple_raw_current_capacity r \<longrightarrow>
        float_le (Fin 100) (real_percentage d))
     \<and> (0 < apple_raw_max_capacity r
          \<and> 10001 * apple_raw_max_capacity r \<le> 10000 * apple_raw_current_capacity r \<longrightarrow>
        float_lt (Fin 100) (real_percentage d))"
proof -
  note f = derive_capacity_fields [OF assms]
  have 1: "float_le (Fin 100) (real_health_pct d) \<and> float_le (wear_level_pct d) (Fin 0)"
    if "0 < design_capacity r" "design_capacity r < apple_raw_max_capacity r"
    using f(1) [OF that(1)] quotient_above_one [OF that] by auto
  have 2: "float_lt (Fin 100) (real_health_pct d) \<and> float_lt (wear_level_pct d) (Fin 0)"
    if "0 < design_capacity r" "10001 * design_capacity r \<le> 10000 * apple_raw_max_capacity r"
    using f(1) [OF that(1)] quotient_well_above_one [OF that] by auto
  have 3: "float_le (Fin 100) (real_percentage d)"
    if "0 < apple_raw_max_capacity r" "apple_raw_max_capacity r < apple_raw_current_capacity r"
    using f(2) [OF that(1)] quotient_above_one(1) [OF that] by auto
  have 4: "float_lt (Fin 100) (real_percentage d)"
    if "0 < apple_raw_max_capacity r"
      "10001 * apple_raw_max_capacity r \<le> 10000 * apple_raw_current_capacity r"
    using f(2) [OF that(1)] quotient_well_above_one(1) [OF that] by auto
  show ?thesis using 1 2 3 4 by blast
qed

theorem percentages_not_clamped_witness:
  "\<exists>d. derive (scenario\<lparr>apple_raw_max_capacity := 3300, design_capacity := 3000,
             apple_raw_current_capacity := 3630\<rparr>) [] = Inr d
     \<and> float_lt (Fin 100) (real_health_pct d) \<and> float_lt (wear_level_pct d) (Fin 0)
     \<and> float_lt (Fin 100) (real_percentage d)
     \<and> real_health_pct d = Fin 110 \<and> wear_level_pct d = Fin (- 10)"
proof -
  let ?r = "scenario\<lparr>apple_raw_max_capacity := 3300, design_capacity := 3000,
             apple_raw_current_capacity := 3630\<rparr>"
  obtain d where d: "derive ?r [] = Inr d"
    and v: "real_health_pct d = Fin 110" "wear_level_pct d = Fin (- 10)"
    using derive_above_design [of "[]"] by simp
  have "0 < design_capacity ?r" "10001 * design_capacity ?r \<le> 10000 * apple_raw_max_capacity ?r"
    "0 < apple_raw_max_capacity ?r"
    "10001 * apple_raw_max_capacity ?r \<le> 10000 * apple_raw_current_capacity ?r"
    by (simp_all add: scenario_def)
  with percentages_not_clamped [OF d] d v show ?thesis by blast
qed

text \<open>
  As the specification words it, with values that exceed 100 and fall below 0 for every
  surplus, the claim fails close to the design capacity: 30001 on a design capacity of
  30000, with a raw current capacity of 30002, gives a real health of exactly 100.0, a
  wear level of zero and a real percentage of exactly 100.0.
\<close>

theorem rounds_to_hundred_counterexample:
  "derive (scenario\<lparr>apple_raw_max_capacity := 30001, design_capacity := 30000,
             apple_raw_current_capacity := 30002\<rparr>) []
     = Inr \<lparr> source = scenario\<lparr>apple_raw_max_capacity := 30001, design_capacity := 30000,
                          apple_raw_current_capacity := 30002\<rparr>,
             voltage_v = Fin 12, power_watts = Fin 18, temperature_celsius = Fin (73 / 2),
             wear_level_pct = Fin 0, real_health_pct = Fin 100, real_percentage = Fin 100,
             charging_status = ''Not Charging'', timestamp = [] \<rparr>
   \<and> \<not> float_lt (Fin 100) (Fin 100) \<and> \<not> float_lt (Fin 0) (Fin 0)"
  using derive_near_design [of "[]"] by simp

end
